theory Spec2Isabelle
  imports Main "HOL-Library.Word" "HOL-Library.Sublist"
begin

section \<open>The off-chain client: utils/hash.ts and utils/blockchain.ts\<close>

text \<open>
  A JavaScript string is a sequence of UTF-16 code units. The model takes the strings whose
  code units are below 256, one \<open>char\<close> per code unit, so that \<open>length\<close> is
  \<^verbatim>\<open>.length\<close>, \<open>take\<close> and \<open>drop\<close> are \<^verbatim>\<open>slice\<close>, and \<open>@\<close> is \<^verbatim>\<open>+\<close>.
\<close>

subsection \<open>String methods\<close>

definition startsWith :: "string \<Rightarrow> string \<Rightarrow> bool" where
  "startsWith s p \<longleftrightarrow> take (length p) s = p"

text \<open>\<^verbatim>\<open>s.padStart(n, c)\<close> for a one-character filler: nothing is added to a string of \<open>n\<close> or more.\<close>

definition padStart :: "string \<Rightarrow> nat \<Rightarrow> char \<Rightarrow> string" where
  "padStart s n c = replicate (n - length s) c @ s"

text \<open>\<^verbatim>\<open>s.includes(t)\<close>: \<open>t\<close> occurs in \<open>s\<close> as a contiguous block.\<close>

fun includesStr :: "string \<Rightarrow> string \<Rightarrow> bool" where
  "includesStr [] t \<longleftrightarrow> t = []"
| "includesStr (c # s) t \<longleftrightarrow> startsWith (c # s) t \<or> includesStr s t"

text \<open>
  The white space of \<^verbatim>\<open>trim\<close> and of the pattern \<^verbatim>\<open>\s\<close> among the code units below 256:
  TAB, LF, VT, FF, CR, space and the no-break space.
\<close>

definition isWhiteSpace :: "char \<Rightarrow> bool" where
  "isWhiteSpace c \<longleftrightarrow>
     c = CHR 0x09 \<or> c = CHR 0x0A \<or> c = CHR 0x0B \<or> c = CHR 0x0C \<or> c = CHR 0x0D \<or>
     c = CHR 0x20 \<or> c = CHR 0xA0"

definition trim :: "string \<Rightarrow> string" where
  "trim s = rev (dropWhile isWhiteSpace (rev (dropWhile isWhiteSpace s)))"

text \<open>
  \<^verbatim>\<open>toLowerCase\<close> on code units below 256: the letters A to Z and the accented capitals
  0xC0 to 0xDE (but the multiplication sign 0xD7) move up by 32.
\<close>

definition toLowerChar :: "char \<Rightarrow> char" where
  "toLowerChar c =
     (let n = of_char c :: nat
      in if (65 \<le> n \<and> n \<le> 90) \<or> (192 \<le> n \<and> n \<le> 222 \<and> n \<noteq> 215)
         then char_of (n + 32) else c)"

definition toLowerCase :: "string \<Rightarrow> string" where
  "toLowerCase s = map toLowerChar s"

text \<open>
  \<^verbatim>\<open>s.split(/\s+/)\<close>: the pieces between the maximal runs of white space. A string that
  starts or ends with white space has an empty first or last piece, and the empty string
  has the one piece \<open>''''\<close>. The flag says that the character before was white space;
  \<open>piece\<close> is the piece being read.
\<close>

fun splitWhitespace :: "bool \<Rightarrow> string \<Rightarrow> string \<Rightarrow> string list" where
  "splitWhitespace inSpace piece [] = [piece]"
| "splitWhitespace inSpace piece (c # s) =
     (if isWhiteSpace c
      then (if inSpace then splitWhitespace True piece s
            else piece # splitWhitespace True [] s)
      else splitWhitespace False (piece @ [c]) s)"

definition split :: "string \<Rightarrow> string list" where
  "split s = splitWhitespace False [] s"

subsection \<open>Numbers\<close>

text \<open>
  A JavaScript number is an IEEE 754 double. The score of the search divides two array
  lengths, multiplies by 100 and rounds; each operation yields the double nearest to the
  exact result, ties to the even significand. A positive double is written as a pair
  \<open>(m, k)\<close> for the value \<open>m / 2 ^ k\<close>, with \<open>m\<close> a significand of 53 bits.
  \<open>nearest_double a b\<close> is the double nearest to \<open>a / b\<close>, for \<open>b > 0\<close> and a
  quotient below \<open>2 ^ 53\<close> and not below the least normal double; array lengths are
  below \<open>2 ^ 32\<close> and convert to doubles without rounding.
\<close>

type_synonym double = "nat \<times> nat"

fun bit_length :: "nat \<Rightarrow> nat" where
  "bit_length n = (if n = 0 then 0 else Suc (bit_length (n div 2)))"

definition nearest_double :: "nat \<Rightarrow> nat \<Rightarrow> double" where
  "nearest_double a b =
     (if a = 0 then (0, 0)
      else
        let e0 = int (bit_length a) - int (bit_length b);
            e = (if (if 0 \<le> e0 then b * 2 ^ nat e0 \<le> a else b \<le> a * 2 ^ nat (- e0))
                 then e0 else e0 - 1);
            k = nat (52 - e);
            q = (a * 2 ^ k) div b;
            r = (a * 2 ^ k) mod b;
            m = (if 2 * r < b then q
                 else if b < 2 * r then q + 1
                 else if even q then q else q + 1)
        in (m, k))"

text \<open>\<^verbatim>\<open>a / b\<close> on two array lengths, and \<^verbatim>\<open>x * 100\<close>.\<close>

definition divide_lengths :: "nat \<Rightarrow> nat \<Rightarrow> double" where
  "divide_lengths a b = nearest_double a b"

definition times100 :: "double \<Rightarrow> double" where
  "times100 x = nearest_double (fst x * 100) (2 ^ snd x)"

text \<open>\<^verbatim>\<open>Math.round\<close>: the nearest integer, a half rounds up.\<close>

definition Math_round :: "double \<Rightarrow> nat" where
  "Math_round x = (2 * fst x + 2 ^ snd x) div 2 ^ (snd x + 1)"

text \<open>
  \<^verbatim>\<open>Number(x)\<close> on a bigint, here an unsigned integer of at most 256 bits: the nearest
  double, ties to the even significand. Below \<open>2 ^ 53\<close> it is the integer itself;
  above, the bits after the first 53 are rounded away, and the result is an integer again.
\<close>

definition Number :: "nat \<Rightarrow> nat" where
  "Number x =
     (if x < 2 ^ 53 then x
      else
        let shift = bit_length x - 53;
            q = x div 2 ^ shift;
            r = x mod 2 ^ shift;
            half = 2 ^ (shift - 1);
            m = (if r < half then q
                 else if half < r then q + 1
                 else if even q then q else q + 1)
        in m * 2 ^ shift)"

subsection \<open>utils/hash.ts\<close>

definition hexToBytes32 :: "string \<Rightarrow> string" where
  "hexToBytes32 hex =
     (let cleanHex = (if startsWith hex ''0x'' then drop 2 hex else hex);
          paddedHex = take 64 (padStart cleanHex 64 CHR ''0'')
      in ''0x'' @ paddedHex)"

definition bytes32ToHex :: "string \<Rightarrow> string" where
  "bytes32ToHex bytes32 = (if startsWith bytes32 ''0x'' then drop 2 bytes32 else bytes32)"

subsection \<open>utils/blockchain.ts: what the client reads\<close>

text \<open>
  A rejected promise or a thrown value is \<open>Inl\<close> of the exception; \<^verbatim>\<open>try\<close>/\<^verbatim>\<open>catch\<close> is
  a case distinction on the sum.
\<close>

datatype exn = Error string | TypeError string

text \<open>
  A field of a JSON object as far as the code looks at it: a string, a value that is no
  string but counts as true (\<open>Other\<close>: a number but 0, an object, an array, true), or
  a value that counts as false and is no string (\<open>Undefined\<close>: a missing field, null,
  0, false). The empty string \<open>Str []\<close> counts as false too.
\<close>

datatype jsval = Undefined | Str string | Other

fun truthy :: "jsval \<Rightarrow> bool" where
  "truthy Undefined = False"
| "truthy (Str s) = (s \<noteq> [])"
| "truthy Other = True"

text \<open>\<^verbatim>\<open>v || d\<close> with a string default.\<close>

definition orDefault :: "jsval \<Rightarrow> string \<Rightarrow> jsval" where
  "orDefault v d = (if truthy v then v else Str d)"

text \<open>
  The arguments of a \<^verbatim>\<open>ContentRegistered\<close> event as the ledger delivers them (the
  timestamp is a bigint), and the object \<^verbatim>\<open>getRecentRegistrations\<close> makes of them (the
  timestamp is \<^verbatim>\<open>Number(args[2])\<close>).
\<close>

record event_args =
  contentHash :: string
  publisher :: string
  timestamp :: nat
  contentType :: string
  ipfsMetadata :: string

record registration =
  contentHash :: string
  publisher :: string
  timestamp :: nat
  contentType :: string
  ipfsMetadata :: string

definition parseEvent :: "event_args \<Rightarrow> registration" where
  "parseEvent args =
     \<lparr>registration.contentHash = event_args.contentHash args,
      registration.publisher = event_args.publisher args,
      registration.timestamp = Number (event_args.timestamp args),
      registration.contentType = event_args.contentType args,
      registration.ipfsMetadata = event_args.ipfsMetadata args\<rparr>"

text \<open>The JSON blob behind a locator; a JSON value that is no object has no field.\<close>

record metadata =
  title :: jsval
  source :: jsval
  url :: jsval
  publishedAt :: jsval
  reliability :: jsval

record SearchMatch =
  title :: string
  source :: jsval
  url :: jsval
  publishedAt :: jsval
  contentHash :: string
  ipfsMetadata :: string
  reliability :: jsval
  similarity :: nat

record search_result =
  found :: bool
  matches :: "SearchMatch list"

text \<open>
  The answer of \<^verbatim>\<open>fetch\<close>: the flag \<^verbatim>\<open>ok\<close> and the outcome of \<^verbatim>\<open>response.json()\<close>, which
  throws on a body that is no JSON and is \<open>None\<close> for a JSON value that counts as false.
\<close>

record response =
  ok :: bool
  json :: "exn + metadata option"

text \<open>
  The struct a call of the public getter \<^verbatim>\<open>contentRegistry(hash)\<close> decodes to (the
  timestamp is a bigint), and the record \<^verbatim>\<open>verifyContent\<close> of the client returns (the
  timestamp is a number).
\<close>

record content_struct =
  contentHash :: string
  timestamp :: nat
  publisher :: string
  contentType :: string
  ipfsMetadata :: string
  exists :: bool

record verification_result =
  exists :: bool
  publisher :: string
  timestamp :: nat
  contentType :: string
  ipfsMetadata :: string

text \<open>
  An ethers \<^verbatim>\<open>Contract\<close> bound to the read-only provider: the outcome of each remote
  call the client makes. \<open>queryFilter from to\<close> lists the \<^verbatim>\<open>ContentRegistered\<close> events
  of a block range, oldest first; \<open>publisherContent_at p i\<close> is the public array getter,
  which reverts from the length of the array on.
\<close>

record Contract =
  queryFilter :: "nat \<Rightarrow> nat \<Rightarrow> exn + event_args list"
  publisherContent_at :: "string \<Rightarrow> nat \<Rightarrow> exn + string"
  contentRegistry_of :: "string \<Rightarrow> exn + content_struct"

text \<open>
  What lies outside the client. \<open>getContract\<close> is the result of \<^verbatim>\<open>getContract(false)\<close>:
  null when no contract address is configured (the constructors of the ethers library are
  taken not to throw). \<open>ipfsCache\<close> is the map \<^verbatim>\<open>ipfsCache\<close> when a search starts and
  \<open>now\<close> is \<^verbatim>\<open>Date.now()\<close>.
\<close>

record world =
  getContract :: "Contract option"
  getBlockNumber :: "exn + nat"
  fetch :: "string \<Rightarrow> exn + response"
  ipfsCache :: "string \<rightharpoonup> metadata option \<times> int"
  now :: int

definition CACHE_TTL :: int where
  "CACHE_TTL = 5 * 60 * 1000"

text \<open>
  \<^verbatim>\<open>fetchIPFSWithCache\<close>: a fresh cache entry answers; otherwise the gateway is asked, and a
  rejected or aborted fetch, an answer that is not ok and a body that does not parse all
  give null. The entry it writes to the cache matters to later searches only and is left
  out.
\<close>

definition fetchIPFSWithCache :: "world \<Rightarrow> string \<Rightarrow> metadata option" where
  "fetchIPFSWithCache w ipfsHash =
     (let fetched =
            (case fetch w (''https://gateway.pinata.cloud/ipfs/'' @ ipfsHash) of
               Inl e \<Rightarrow> None
             | Inr resp \<Rightarrow>
                 if \<not> ok resp then None
                 else (case json resp of Inl e \<Rightarrow> None | Inr data \<Rightarrow> data))
      in case ipfsCache w ipfsHash of
           Some (data, stamp) \<Rightarrow> if now w - stamp < CACHE_TTL then data else fetched
         | None \<Rightarrow> fetched)"

text \<open>
  \<^verbatim>\<open>getRecentRegistrations(limit)\<close>: the events of the last 5000 blocks, newest first, at
  most \<open>limit\<close> of them; the empty list when there is no contract or a call fails.
\<close>

definition getRecentRegistrations :: "world \<Rightarrow> nat \<Rightarrow> registration list" where
  "getRecentRegistrations w limit =
     (case getContract w of
        None \<Rightarrow> []
      | Some contract \<Rightarrow>
          (case getBlockNumber w of
             Inl e \<Rightarrow> []
           | Inr latestBlock \<Rightarrow>
               (case queryFilter contract (latestBlock - 5000) latestBlock of
                  Inl e \<Rightarrow> []
                | Inr events \<Rightarrow> take limit (rev (map parseEvent events)))))"

text \<open>
  The score of one title against the query, both in lower case, the query trimmed (lines
  570 to 585 of the loop of \<^verbatim>\<open>searchVerifiedNews\<close>).
\<close>

definition similarityOf :: "string \<Rightarrow> string \<Rightarrow> nat" where
  "similarityOf searchLower titleLower =
     (if titleLower = searchLower then 100
      else if includesStr titleLower searchLower \<or> includesStr searchLower titleLower then 80
      else
        let searchWords = filter (\<lambda>w. 3 < length w) (split searchLower);
            titleWords = split titleLower;
            matchedWords =
              filter (\<lambda>sw. list_ex (\<lambda>tw. includesStr tw sw \<or> includesStr sw tw) titleWords)
                searchWords
        in if 0 < length searchWords
           then Math_round (times100 (divide_lengths (length matchedWords) (length searchWords)))
           else 0)"

text \<open>
  The loop over the candidates, \<open>found_so_far\<close> being the array \<^verbatim>\<open>matches\<close>. A
  candidate without metadata or without a title that counts as true is skipped. A title
  that is no string has no method \<^verbatim>\<open>toLowerCase\<close>: the call throws a TypeError, which
  leaves the loop.
\<close>

fun collectMatches ::
  "string \<Rightarrow> (registration \<times> metadata option) list \<Rightarrow> SearchMatch list \<Rightarrow> exn + SearchMatch list" where
  "collectMatches searchLower [] found_so_far = Inr found_so_far"
| "collectMatches searchLower ((reg, None) # rest) found_so_far =
     collectMatches searchLower rest found_so_far"
| "collectMatches searchLower ((reg, Some meta) # rest) found_so_far =
     (if \<not> truthy (metadata.title meta) then collectMatches searchLower rest found_so_far
      else
        case metadata.title meta of
          Str t \<Rightarrow>
            let titleLower = toLowerCase t;
                score = similarityOf searchLower titleLower
            in if 50 \<le> score
               then collectMatches searchLower rest
                      (found_so_far @
                       [\<lparr>SearchMatch.title = t,
                         SearchMatch.source = orDefault (metadata.source meta) ''Unknown'',
                         SearchMatch.url = orDefault (metadata.url meta) [],
                         SearchMatch.publishedAt = orDefault (metadata.publishedAt meta) [],
                         SearchMatch.contentHash = registration.contentHash reg,
                         SearchMatch.ipfsMetadata = registration.ipfsMetadata reg,
                         SearchMatch.reliability = orDefault (metadata.reliability meta) ''verified'',
                         SearchMatch.similarity = score\<rparr>])
               else collectMatches searchLower rest found_so_far
        | _ \<Rightarrow> Inl (TypeError ''meta.title.toLowerCase is not a function''))"

text \<open>
  \<^verbatim>\<open>matches.sort((a, b) => b.similarity - a.similarity)\<close>: a stable sort, highest score
  first.
\<close>

definition sortBySimilarity :: "SearchMatch list \<Rightarrow> SearchMatch list" where
  "sortBySimilarity ms = sort_key (\<lambda>m. - int (SearchMatch.similarity m)) ms"

text \<open>The block of \<^verbatim>\<open>searchVerifiedNews\<close> inside \<^verbatim>\<open>try\<close>, and the function with its \<^verbatim>\<open>catch\<close>.\<close>

definition searchVerifiedNews_try :: "world \<Rightarrow> string \<Rightarrow> exn + search_result" where
  "searchVerifiedNews_try w searchQuery =
     (let registrations = getRecentRegistrations w 20;
          searchLower = trim (toLowerCase searchQuery);
          articleRegs =
            filter (\<lambda>reg. registration.contentType reg = ''article'' \<and>
                          registration.ipfsMetadata reg \<noteq> []) registrations;
          metadataResults =
            map (\<lambda>reg. (reg, fetchIPFSWithCache w (registration.ipfsMetadata reg))) articleRegs
      in case collectMatches searchLower metadataResults [] of
           Inl e \<Rightarrow> Inl e
         | Inr ms \<Rightarrow>
             let sorted = sortBySimilarity ms
             in Inr \<lparr>found = 0 < length sorted, matches = take 10 sorted\<rparr>)"

definition searchVerifiedNews :: "world \<Rightarrow> string \<Rightarrow> exn + search_result" where
  "searchVerifiedNews w searchQuery =
     (case searchVerifiedNews_try w searchQuery of
        Inl error \<Rightarrow> Inr \<lparr>found = False, matches = []\<rparr>
      | Inr result \<Rightarrow> Inr result)"

text \<open>
  \<^verbatim>\<open>getPublisherContent\<close> of the client. The loop asks for index 0, 1, 2 and so on; a call
  that fails and a hash that is empty or zero both end it, and the hashes read so far are
  returned. Every statement of the loop stands inside the inner \<^verbatim>\<open>try\<close>, so the outer
  \<^verbatim>\<open>catch\<close> has nothing left to catch. The loop need not end, so the result is an
  option: \<open>None\<close> when the contract answers every index with a hash.
\<close>

definition zeroHash :: string where
  "zeroHash = ''0x'' @ replicate 64 CHR ''0''"

partial_function (option) publisherContent_loop ::
  "(nat \<Rightarrow> exn + string) \<Rightarrow> nat \<Rightarrow> string list \<Rightarrow> string list option" where
  "publisherContent_loop call index hashes =
     (case call index of
        Inl e \<Rightarrow> Some hashes
      | Inr hash \<Rightarrow>
          if hash \<noteq> [] \<and> hash \<noteq> zeroHash
          then publisherContent_loop call (index + 1) (hashes @ [hash])
          else Some hashes)"

declare publisherContent_loop.simps [code]

definition getPublisherContent_client :: "world \<Rightarrow> string \<Rightarrow> (exn + string list) option" where
  "getPublisherContent_client w publisherAddress =
     (case getContract w of
        None \<Rightarrow> Some (Inr [])
      | Some contract \<Rightarrow>
          map_option Inr
            (publisherContent_loop (publisherContent_at contract publisherAddress) 0 []))"

text \<open>
  \<^verbatim>\<open>verifyContent\<close> of the client reads the public mapping; it throws when there is no
  contract and answers \<open>exists = False\<close> when the call fails. The timestamp it returns is
  \<^verbatim>\<open>Number(content.timestamp)\<close>.
\<close>

definition notFound :: verification_result where
  "notFound = \<lparr>verification_result.exists = False, verification_result.publisher = [],
     verification_result.timestamp = 0, verification_result.contentType = [],
     verification_result.ipfsMetadata = []\<rparr>"

definition verifyContent_client :: "world \<Rightarrow> string \<Rightarrow> exn + verification_result" where
  "verifyContent_client w hash =
     (case getContract w of
        None \<Rightarrow> Inl (Error ''Contract not available'')
      | Some contract \<Rightarrow>
          (case contentRegistry_of contract hash of
             Inl error \<Rightarrow> Inr notFound
           | Inr content \<Rightarrow>
               if \<not> content_struct.exists content then Inr notFound
               else Inr \<lparr>verification_result.exists = True,
                         verification_result.publisher = content_struct.publisher content,
                         verification_result.timestamp = Number (content_struct.timestamp content),
                         verification_result.contentType = content_struct.contentType content,
                         verification_result.ipfsMetadata = content_struct.ipfsMetadata content\<rparr>))"

subsection \<open>The verification portal: \<^verbatim>\<open>handleSearch\<close>\<close>

text \<open>
  The handler of the portal changes the state of the component and calls the registry,
  the search and the oracles. The model returns the new state next to the list of the
  calls and toasts it made, in the order it made them. Of an analysis only the fields the
  handler reads are kept, and of a toast only its kind.
\<close>

datatype verdict = likely_real | likely_fake | unverified | mixed

record AIAnalysis =
  verdict :: verdict

record ImageAnalysisResult =
  newsContent :: string
  manipulationIndicators :: "string list"
  analysisResult :: AIAnalysis

record BlockchainMatch =
  found :: bool
  contentHash :: string
  publisher :: string
  timestamp :: nat
  contentType :: string
  ipfsMetadata :: string

datatype mode = text_mode | image_mode

datatype tab = blockchain_tab | ai_tab

datatype toast = toast_info | toast_success | toast_warning | toast_error

datatype effect =
    Call_generateFileHash string
  | Call_verifyContent string
  | Call_analyzeNewsImage string
  | Call_analyzeNewsContent string
  | Call_searchVerifiedNews string
  | Toast toast

text \<open>The state of the component; a file is the string of its bytes.\<close>

record portal =
  searchQuery :: string
  isSearching :: bool
  searchResults :: "SearchMatch list option"
  aiAnalysis :: "AIAnalysis option"
  hasSearched :: bool
  activeTab :: tab
  exactBlockchainMatch :: "BlockchainMatch option"
  selectedImage :: "string option"
  imageAnalysis :: "ImageAnalysisResult option"
  verificationMode :: mode
  imageBlockchainMatch :: "BlockchainMatch option"

text \<open>
  The functions the handler imports from utils/hash.ts (the digests are computed by the
  crypto-js library) and utils/factChecker.ts (the calls to the external oracles).
\<close>

record services =
  generateContentHash :: "string \<Rightarrow> string"
  generateFileHash :: "string \<Rightarrow> exn + string"
  analyzeNewsContent :: "string \<Rightarrow> exn + AIAnalysis"
  analyzeNewsImage :: "string \<Rightarrow> exn + ImageAnalysisResult"

definition asMatch :: "string \<Rightarrow> verification_result \<Rightarrow> BlockchainMatch" where
  "asMatch bytes32Hash r =
     \<lparr>BlockchainMatch.found = True, BlockchainMatch.contentHash = bytes32Hash,
      BlockchainMatch.publisher = verification_result.publisher r,
      BlockchainMatch.timestamp = verification_result.timestamp r,
      BlockchainMatch.contentType = verification_result.contentType r,
      BlockchainMatch.ipfsMetadata = verification_result.ipfsMetadata r\<rparr>"

text \<open>
  The branch for an image. The \<^verbatim>\<open>catch\<close> shows a toast and the \<^verbatim>\<open>finally\<close> clears
  \<^verbatim>\<open>isSearching\<close>, whatever happened before.
\<close>

definition handleSearch_image ::
  "world \<Rightarrow> services \<Rightarrow> string \<Rightarrow> portal \<Rightarrow> portal \<times> effect list" where
  "handleSearch_image w sv file st =
     (let st1 = st\<lparr>isSearching := True, searchResults := None, aiAnalysis := None,
                   imageAnalysis := None, imageBlockchainMatch := None, hasSearched := True\<rparr>;
          tr1 = [Toast toast_info, Call_generateFileHash file];
          failed = (\<lambda>st' tr. (st'\<lparr>isSearching := False\<rparr>, tr @ [Toast toast_error]))
      in case generateFileHash sv file of
           Inl e \<Rightarrow> failed st1 tr1
         | Inr imageHash \<Rightarrow>
             let bytes32Hash = hexToBytes32 imageHash;
                 tr2 = tr1 @ [Call_verifyContent bytes32Hash]
             in case verifyContent_client w bytes32Hash of
                  Inl e \<Rightarrow> failed st1 tr2
                | Inr blockchainResult \<Rightarrow>
                    if verification_result.exists blockchainResult
                    then (st1\<lparr>imageBlockchainMatch := Some (asMatch bytes32Hash blockchainResult),
                               activeTab := blockchain_tab, isSearching := False\<rparr>,
                          tr2 @ [Toast toast_success])
                    else
                      let tr3 = tr2 @ [Toast toast_info, Call_analyzeNewsImage file]
                      in case analyzeNewsImage sv file of
                           Inl e \<Rightarrow> failed st1 tr3
                         | Inr result \<Rightarrow>
                             let st2 = st1\<lparr>imageAnalysis := Some result,
                                           aiAnalysis := Some (analysisResult result)\<rparr>;
                                 finish = (\<lambda>st' tr.
                                   (st'\<lparr>activeTab := ai_tab, isSearching := False\<rparr>,
                                    tr @ [Toast
                                      (if manipulationIndicators result \<noteq> [] then toast_warning
                                       else if verdict (analysisResult result) = likely_real
                                       then toast_success else toast_info)]))
                             in if newsContent result \<noteq> []
                                then
                                  let tr4 = tr3 @ [Call_searchVerifiedNews (newsContent result)]
                                  in case searchVerifiedNews w (newsContent result) of
                                       Inl e \<Rightarrow> failed st2 tr4
                                     | Inr textBlockchainResult \<Rightarrow>
                                         finish (st2\<lparr>searchResults :=
                                                 Some (matches textBlockchainResult)\<rparr>) tr4
                                else finish st2 tr3)"

text \<open>
  The branch for text. With an exact match only the oracle is asked; without one, the
  search and the oracle are started together and awaited with \<^verbatim>\<open>Promise.all\<close>.
\<close>

definition handleSearch_text ::
  "world \<Rightarrow> services \<Rightarrow> portal \<Rightarrow> portal \<times> effect list" where
  "handleSearch_text w sv st =
     (if trim (searchQuery st) = [] then (st, [Toast toast_error])
      else
        let st1 = st\<lparr>isSearching := True, searchResults := None, aiAnalysis := None,
                     imageAnalysis := None, exactBlockchainMatch := None, hasSearched := True\<rparr>;
            failed = (\<lambda>st' tr. (st'\<lparr>isSearching := False\<rparr>, tr @ [Toast toast_error]));
            contentHash = generateContentHash sv (trim (searchQuery st));
            bytes32Hash = hexToBytes32 contentHash;
            tr1 = [Call_verifyContent bytes32Hash]
        in case verifyContent_client w bytes32Hash of
             Inl e \<Rightarrow> failed st1 tr1
           | Inr exactMatch \<Rightarrow>
               if verification_result.exists exactMatch
               then
                 let st2 = st1\<lparr>exactBlockchainMatch := Some (asMatch bytes32Hash exactMatch),
                               activeTab := blockchain_tab\<rparr>;
                     tr2 = tr1 @ [Toast toast_success, Call_analyzeNewsContent (searchQuery st)]
                 in case analyzeNewsContent sv (searchQuery st) of
                      Inl e \<Rightarrow> failed st2 tr2
                    | Inr aiResult \<Rightarrow>
                        (st2\<lparr>aiAnalysis := Some aiResult, isSearching := False\<rparr>, tr2)
               else
                 let tr2 = tr1 @ [Call_searchVerifiedNews (searchQuery st),
                                  Call_analyzeNewsContent (searchQuery st)]
                 in case searchVerifiedNews w (searchQuery st) of
                      Inl e \<Rightarrow> failed st1 tr2
                    | Inr blockchainResult \<Rightarrow>
                        (case analyzeNewsContent sv (searchQuery st) of
                           Inl e \<Rightarrow> failed st1 tr2
                         | Inr aiResult \<Rightarrow>
                             let st2 = st1\<lparr>searchResults := Some (matches blockchainResult),
                                           aiAnalysis := Some aiResult\<rparr>
                             in if search_result.found blockchainResult
                                then (st2\<lparr>activeTab := blockchain_tab, isSearching := False\<rparr>,
                                      tr2 @ [Toast toast_success])
                                else if verdict aiResult \<noteq> unverified
                                then (st2\<lparr>activeTab := ai_tab, isSearching := False\<rparr>,
                                      tr2 @ [Toast toast_info])
                                else (st2\<lparr>isSearching := False\<rparr>, tr2 @ [Toast toast_warning])))"

definition handleSearch :: "world \<Rightarrow> services \<Rightarrow> portal \<Rightarrow> portal \<times> effect list" where
  "handleSearch w sv st =
     (case (verificationMode st, selectedImage st) of
        (image_mode, Some file) \<Rightarrow> handleSearch_image w sv file st
      | _ \<Rightarrow> handleSearch_text w sv st)"

text \<open>The fingerprint the handler looks up, when it looks one up.\<close>

definition lookedUp :: "services \<Rightarrow> portal \<Rightarrow> (exn + string) option" where
  "lookedUp sv st =
     (case (verificationMode st, selectedImage st) of
        (image_mode, Some file) \<Rightarrow>
          Some (map_sum id hexToBytes32 (generateFileHash sv file))
      | _ \<Rightarrow>
          if trim (searchQuery st) = [] then None
          else Some (Inr (hexToBytes32 (generateContentHash sv (trim (searchQuery st))))))"

subsection \<open>The search policy in the words of the specification\<close>

text \<open>
  The candidates of a search: the article registrations among the 20 most recent that have
  a locator, each with the metadata fetched for it (\<^verbatim>\<open>metadataResults\<close> in the source).
\<close>

definition candidates :: "world \<Rightarrow> (registration \<times> metadata option) list" where
  "candidates w =
     map (\<lambda>reg. (reg, fetchIPFSWithCache w (registration.ipfsMetadata reg)))
       (filter (\<lambda>reg. registration.contentType reg = ''article'' \<and>
                      registration.ipfsMetadata reg \<noteq> [])
          (getRecentRegistrations w 20))"

text \<open>
  The tiered policy: the query and the title in lower case and trimmed. Equal strings
  score 100; otherwise, one string occurring in the other scores 80; otherwise the score is
  the rounded percentage of the query words longer than 3 characters that occur in, or
  contain, a word of the title, and 0 when no query word is that long. The percentage is
  computed and rounded in double precision, as JavaScript does.
\<close>

definition policy_score :: "string \<Rightarrow> string \<Rightarrow> nat" where
  "policy_score query headline =
     (let q = trim (toLowerCase query);
          t = trim (toLowerCase headline);
          longWords = filter (\<lambda>w. 3 < length w) (split q);
          matched = filter (\<lambda>sw. \<exists>tw \<in> set (split t). sublist sw tw \<or> sublist tw sw) longWords
      in if t = q then 100
         else if sublist q t \<or> sublist t q then 80
         else if longWords = [] then 0
         else Math_round (times100 (divide_lengths (length matched) (length longWords))))"

text \<open>
  \<open>round(100 \<times> m / n)\<close> on the exact quotient of \<open>m\<close> matched words among \<open>n\<close>, a half
  rounding up, for comparison with the score the source computes in doubles.
\<close>

definition rounded_percentage :: "nat \<Rightarrow> nat \<Rightarrow> nat" where
  "rounded_percentage m n = (2 * (100 * m) + n) div (2 * n)"

text \<open>A candidate with a retrievable title (a string that is not empty) and its score.\<close>

fun scored :: "string \<Rightarrow> registration \<times> metadata option \<Rightarrow> SearchMatch option" where
  "scored query (reg, None) = None"
| "scored query (reg, Some meta) =
     (case metadata.title meta of
        Str t \<Rightarrow>
          if t = [] then None
          else Some \<lparr>SearchMatch.title = t,
                     SearchMatch.source = orDefault (metadata.source meta) ''Unknown'',
                     SearchMatch.url = orDefault (metadata.url meta) [],
                     SearchMatch.publishedAt = orDefault (metadata.publishedAt meta) [],
                     SearchMatch.contentHash = registration.contentHash reg,
                     SearchMatch.ipfsMetadata = registration.ipfsMetadata reg,
                     SearchMatch.reliability = orDefault (metadata.reliability meta) ''verified'',
                     SearchMatch.similarity = policy_score query t\<rparr>
      | _ \<Rightarrow> None)"

text \<open>The candidates scoring at least 50, and the answer: highest score first, at most 10.\<close>

definition retained :: "world \<Rightarrow> string \<Rightarrow> SearchMatch list" where
  "retained w query =
     filter (\<lambda>m. 50 \<le> SearchMatch.similarity m) (List.map_filter (scored query) (candidates w))"

definition search_policy :: "world \<Rightarrow> string \<Rightarrow> search_result" where
  "search_policy w query =
     \<lparr>search_result.found = (retained w query \<noteq> []),
      search_result.matches = take 10 (sort_key (\<lambda>m. - int (SearchMatch.similarity m)) (retained w query))\<rparr>"

text \<open>A call of the array getter answers when it returns a hash that is neither empty nor zero.\<close>

definition answers :: "exn + string \<Rightarrow> bool" where
  "answers r \<longleftrightarrow> (case r of Inl e \<Rightarrow> False | Inr hash \<Rightarrow> hash \<noteq> [] \<and> hash \<noteq> zeroHash)"

subsection \<open>Example worlds\<close>

definition article :: "string \<Rightarrow> string \<Rightarrow> event_args" where
  "article hash locator =
     \<lparr>event_args.contentHash = hash, event_args.publisher = ''0xA11CE'',
      event_args.timestamp = 1700000000, event_args.contentType = ''article'',
      event_args.ipfsMetadata = locator\<rparr>"

definition titled :: "jsval \<Rightarrow> metadata" where
  "titled t = \<lparr>metadata.title = t, metadata.source = Str ''Reuters'', metadata.url = Undefined,
     metadata.publishedAt = Undefined, metadata.reliability = Undefined\<rparr>"

text \<open>
  A gateway that serves five blobs, and a contract that lists the given events, holds a
  record for the hash of \<open>CHR ''a''\<close> and two hashes for publisher \<open>''0xA11CE''\<close>;
  the getter reverts from index 2 on.
\<close>

definition gateway :: "string \<Rightarrow> exn + response" where
  "gateway u =
     (if u = ''https://gateway.pinata.cloud/ipfs/QmFind''
      then Inr \<lparr>ok = True, json = Inr (Some (titled (Str ''Scientists Find New Planet'')))\<rparr>
      else if u = ''https://gateway.pinata.cloud/ipfs/QmDiscover''
      then Inr \<lparr>ok = True, json = Inr (Some (titled (Str ''Scientists Discover New Planet'')))\<rparr>
      else if u = ''https://gateway.pinata.cloud/ipfs/QmHello''
      then Inr \<lparr>ok = True, json = Inr (Some (titled (Str ''Hello '')))\<rparr>
      else if u = ''https://gateway.pinata.cloud/ipfs/QmNumber''
      then Inr \<lparr>ok = True, json = Inr (Some (titled Other))\<rparr>
      else if u = ''https://gateway.pinata.cloud/ipfs/QmWords''
      then Inr \<lparr>ok = True, json = Inr (Some (titled (Str ''aaaa bbbb'')))\<rparr>
      else Inl (Error ''Failed to fetch''))"

definition hashOf :: "char \<Rightarrow> string" where
  "hashOf c = ''0x'' @ replicate 64 c"

definition ledger :: "event_args list \<Rightarrow> Contract" where
  "ledger events =
     \<lparr>queryFilter = (\<lambda>fromBlock toBlock. Inr events),
      publisherContent_at = (\<lambda>p i.
        if p = ''0xA11CE'' \<and> i < 2 then Inr (hashOf ([CHR ''a'', CHR ''b''] ! i))
        else Inl (Error ''call revert exception'')),
      contentRegistry_of = (\<lambda>h.
        Inr \<lparr>content_struct.contentHash = h, content_struct.timestamp = 1700000000,
             content_struct.publisher = ''0xA11CE'', content_struct.contentType = ''article'',
             content_struct.ipfsMetadata = ''QmFind'',
             content_struct.exists = (h = hashOf CHR ''a'')\<rparr>)\<rparr>"

definition world_of :: "event_args list \<Rightarrow> world" where
  "world_of events =
     \<lparr>getContract = Some (ledger events), getBlockNumber = Inr 6000, fetch = gateway,
      ipfsCache = Map.empty, now = 1700000000000\<rparr>"

definition planets :: world where
  "planets = world_of [article (hashOf CHR ''a'') ''QmFind'', article (hashOf CHR ''b'') ''QmDiscover'']"

definition hello :: world where
  "hello = world_of [article (hashOf CHR ''c'') ''QmHello'']"

text \<open>A query of 40 words, 23 of them the first word of the title of the one article.\<close>

definition wordy :: world where
  "wordy = world_of [article (hashOf CHR ''f'') ''QmWords'']"

definition fortyWords :: string where
  "fortyWords = concat (replicate 23 ''aaaa '') @ concat (replicate 16 ''zzzz '') @ ''zzzz''"

definition malformed :: world where
  "malformed = world_of [article (hashOf CHR ''a'') ''QmFind'', article (hashOf CHR ''d'') ''QmNumber'']"

definition offline :: world where
  "offline = planets\<lparr>getContract := None\<rparr>"

text \<open>
  Oracles that answer every question the same way, and two states of the portal: a text
  whose digest the example contract holds, and one it does not hold.
\<close>

definition oracles :: services where
  "oracles =
     \<lparr>generateContentHash = (\<lambda>content. if content = ''known text'' then replicate 64 CHR ''a''
                                       else replicate 64 CHR ''e''),
      generateFileHash = (\<lambda>file. Inr (replicate 64 CHR ''e'')),
      analyzeNewsContent = (\<lambda>content. Inr \<lparr>verdict = mixed\<rparr>),
      analyzeNewsImage = (\<lambda>file. Inr \<lparr>newsContent = ''scientists find planet'',
                                         manipulationIndicators = [],
                                         analysisResult = \<lparr>verdict = mixed\<rparr>\<rparr>)\<rparr>"

definition asking :: "string \<Rightarrow> portal" where
  "asking text =
     \<lparr>searchQuery = text, isSearching = False, searchResults = None, aiAnalysis = None,
      hasSearched = False, activeTab = blockchain_tab, exactBlockchainMatch = None,
      selectedImage = None, imageAnalysis = None, verificationMode = text_mode,
      imageBlockchainMatch = None\<rparr>"

section \<open>The on-chain registry: contracts/ContentVerification.sol\<close>

text \<open>
  The contract is compiled with \<^verbatim>\<open>pragma solidity ^0.8.20\<close>. Its storage becomes a record
  that every external function takes and returns; a \<^verbatim>\<open>require\<close> that fails is the value
  \<open>Inl (Revert reason)\<close> with the source's reason string, and a failed call leaves no
  trace in storage. Arithmetic on \<^verbatim>\<open>uint256\<close> is checked since Solidity 0.8: an
  increment that leaves the 256-bit range aborts the call with Panic(0x11), written
  \<open>Inl Panic\<close> here. Events are not storage; a call returns the events it emits next to
  the new storage. Gas and the value sent with a call belong to the ledger and are left
  out.
\<close>

type_synonym bytes32 = "256 word"
type_synonym uint256 = "256 word"
type_synonym address = "160 word"

record Content =
  contentHash :: bytes32
  timestamp :: uint256
  publisher :: address
  contentType :: string
  ipfsMetadata :: string
  exists :: bool

record PublisherReputation =
  totalRegistrations :: uint256
  verificationCount :: uint256
  reputationScore :: uint256

text \<open>
  The state variable \<^verbatim>\<open>totalRegistrations\<close> of the contract has the name of a field of
  \<^verbatim>\<open>PublisherReputation\<close>; the global counter is the field \<open>totalRegistrations\<close> of
  \<open>ContentVerification\<close>, the per-publisher one is \<open>PublisherReputation.totalRegistrations\<close>.
\<close>

record ContentVerification =
  contentRegistry :: "bytes32 \<Rightarrow> Content"
  publisherContent :: "address \<Rightarrow> bytes32 list"
  publisherReputations :: "address \<Rightarrow> PublisherReputation"
  totalRegistrations :: uint256
  owner :: address
  paused :: bool

datatype event =
    ContentRegistered bytes32 address uint256 string string
  | ContentVerified bytes32 bool address
  | ContractPaused address uint256
  | ContractUnpaused address uint256

datatype error = Revert string | Panic

text \<open>The names the specification gives to the failures of the contract.\<close>

abbreviation SystemPaused :: error where
  "SystemPaused \<equiv> Revert ''Contract is paused''"
abbreviation InvalidCategory :: error where
  "InvalidCategory \<equiv> Revert ''Invalid content type''"
abbreviation EmptyFingerprint :: error where
  "EmptyFingerprint \<equiv> Revert ''Content hash cannot be empty''"
abbreviation DuplicateFingerprint :: error where
  "DuplicateFingerprint \<equiv> Revert ''Content already registered''"
abbreviation EmptyMetadata :: error where
  "EmptyMetadata \<equiv> Revert ''IPFS metadata required''"
abbreviation NotOwner :: error where
  "NotOwner \<equiv> Revert ''Only owner can call this function''"

text \<open>What a call sees of its transaction: \<^verbatim>\<open>msg.sender\<close> and \<^verbatim>\<open>block.timestamp\<close>.\<close>

record msg =
  sender :: address
  block_timestamp :: uint256

text \<open>The zero value a Solidity mapping holds at every key that was never written.\<close>

definition zeroContent :: Content where
  "zeroContent = \<lparr>contentHash = 0, timestamp = 0, publisher = 0, contentType = [],
     ipfsMetadata = [], exists = False\<rparr>"

definition zeroReputation :: PublisherReputation where
  "zeroReputation = \<lparr>PublisherReputation.totalRegistrations = 0, verificationCount = 0,
     reputationScore = 0\<rparr>"

text \<open>\<^verbatim>\<open>constructor() { owner = msg.sender; paused = false; }\<close>\<close>

definition constructor :: "address \<Rightarrow> ContentVerification" where
  "constructor deployer =
     \<lparr>contentRegistry = (\<lambda>_. zeroContent), publisherContent = (\<lambda>_. []),
      publisherReputations = (\<lambda>_. zeroReputation), totalRegistrations = 0,
      owner = deployer, paused = False\<rparr>"

text \<open>Checked addition of Solidity 0.8 (\<^verbatim>\<open>++\<close> and \<^verbatim>\<open>+=\<close> outside an unchecked block).\<close>

definition checked_add :: "uint256 \<Rightarrow> uint256 \<Rightarrow> error + uint256" where
  "checked_add a b = (if unat a + unat b < 2 ^ 256 then Inr (a + b) else Inl Panic)"

text \<open>
  The modifier \<^verbatim>\<open>validContentType\<close> compares keccak256 digests, Solidity's idiom for
  string equality; digests of different strings are taken to differ.
\<close>

definition validContentType :: "string \<Rightarrow> bool" where
  "validContentType t \<longleftrightarrow> t = ''article'' \<or> t = ''image'' \<or> t = ''video''"

text \<open>
  \<^verbatim>\<open>registerContent\<close>: the modifiers run in the order they are written
  (\<^verbatim>\<open>whenNotPaused\<close>, then \<^verbatim>\<open>validContentType\<close>), then the three \<^verbatim>\<open>require\<close> of the body.
\<close>

definition registerContent ::
  "msg \<Rightarrow> bytes32 \<Rightarrow> string \<Rightarrow> string \<Rightarrow> ContentVerification
     \<Rightarrow> error + ContentVerification \<times> event list" where
  "registerContent m h ty meta s =
     (if paused s then Inl SystemPaused
      else if \<not> validContentType ty then Inl InvalidCategory
      else if h = 0 then Inl EmptyFingerprint
      else if exists (contentRegistry s h) then Inl DuplicateFingerprint
      else if \<not> 0 < length meta then Inl EmptyMetadata
      else
        let rep = publisherReputations s (sender m) in
        case checked_add (PublisherReputation.totalRegistrations rep) 1 of
          Inl e \<Rightarrow> Inl e
        | Inr regs \<Rightarrow>
        (case checked_add (reputationScore rep) 10 of
          Inl e \<Rightarrow> Inl e
        | Inr score \<Rightarrow>
        (case checked_add (totalRegistrations s) 1 of
          Inl e \<Rightarrow> Inl e
        | Inr newTotal \<Rightarrow>
          Inr (s\<lparr>contentRegistry := (contentRegistry s)
                    (h := \<lparr>contentHash = h, timestamp = block_timestamp m,
                           publisher = sender m, contentType = ty,
                           ipfsMetadata = meta, exists = True\<rparr>),
                  publisherContent := (publisherContent s)
                    (sender m := publisherContent s (sender m) @ [h]),
                  publisherReputations := (publisherReputations s)
                    (sender m := rep\<lparr>PublisherReputation.totalRegistrations := regs,
                                      reputationScore := score\<rparr>),
                  totalRegistrations := newTotal\<rparr>,
               [ContentRegistered h (sender m) (block_timestamp m) ty meta]))))"

text \<open>
  \<^verbatim>\<open>verifyContent\<close> has no modifier. It copies the record to memory, rewards the publisher
  of a record that exists, emits \<^verbatim>\<open>ContentVerified\<close> and returns five fields of the copy.
\<close>

type_synonym verification = "bool \<times> address \<times> uint256 \<times> string \<times> string"

definition verifyContent ::
  "msg \<Rightarrow> bytes32 \<Rightarrow> ContentVerification
     \<Rightarrow> error + ContentVerification \<times> event list \<times> verification" where
  "verifyContent m h s =
     (let content = contentRegistry s h;
          ret = (exists content, publisher content, timestamp content,
                 contentType content, ipfsMetadata content);
          ev = [ContentVerified h (exists content) (sender m)]
      in if exists content then
           let rep = publisherReputations s (publisher content) in
           case checked_add (verificationCount rep) 1 of
             Inl e \<Rightarrow> Inl e
           | Inr count \<Rightarrow>
           (case checked_add (reputationScore rep) 5 of
             Inl e \<Rightarrow> Inl e
           | Inr score \<Rightarrow>
             Inr (s\<lparr>publisherReputations := (publisherReputations s)
                       (publisher content := rep\<lparr>verificationCount := count,
                                                  reputationScore := score\<rparr>)\<rparr>,
                  ev, ret))
         else Inr (s, ev, ret))"

text \<open>The view functions read storage and cannot change it.\<close>

definition getPublisherContent :: "address \<Rightarrow> ContentVerification \<Rightarrow> bytes32 list" where
  "getPublisherContent p s = publisherContent s p"

definition getPublisherReputation ::
  "address \<Rightarrow> ContentVerification \<Rightarrow> uint256 \<times> uint256 \<times> uint256" where
  "getPublisherReputation p s =
     (let rep = publisherReputations s p
      in (PublisherReputation.totalRegistrations rep, verificationCount rep,
          reputationScore rep))"

definition getTotalRegistrations :: "ContentVerification \<Rightarrow> uint256" where
  "getTotalRegistrations s = totalRegistrations s"

definition getContentDetails :: "bytes32 \<Rightarrow> ContentVerification \<Rightarrow> Content" where
  "getContentDetails h s = contentRegistry s h"

text \<open>\<^verbatim>\<open>pause\<close> and \<^verbatim>\<open>unpause\<close> carry the modifier \<^verbatim>\<open>onlyOwner\<close>.\<close>

definition pause :: "msg \<Rightarrow> ContentVerification \<Rightarrow> error + ContentVerification \<times> event list" where
  "pause m s =
     (if sender m \<noteq> owner s then Inl NotOwner
      else Inr (s\<lparr>paused := True\<rparr>, [ContractPaused (sender m) (block_timestamp m)]))"

definition unpause :: "msg \<Rightarrow> ContentVerification \<Rightarrow> error + ContentVerification \<times> event list" where
  "unpause m s =
     (if sender m \<noteq> owner s then Inl NotOwner
      else Inr (s\<lparr>paused := False\<rparr>, [ContractUnpaused (sender m) (block_timestamp m)]))"

text \<open>
  A transaction is a call of one external function. The ledger applies transactions one
  after the other; a call that reverts leaves the storage as it was.
\<close>

datatype call =
    RegisterContent bytes32 string string
  | VerifyContent bytes32
  | GetPublisherContent address
  | GetPublisherReputation address
  | GetTotalRegistrations
  | GetContentDetails bytes32
  | Pause
  | Unpause

type_synonym transaction = "msg \<times> call"

fun storage_after :: "ContentVerification \<Rightarrow> error + ContentVerification \<times> 'a \<Rightarrow> ContentVerification" where
  "storage_after s (Inl e) = s"
| "storage_after s (Inr (s', x)) = s'"

fun apply_call :: "msg \<Rightarrow> call \<Rightarrow> ContentVerification \<Rightarrow> ContentVerification" where
  "apply_call m (RegisterContent h ty meta) s = storage_after s (registerContent m h ty meta s)"
| "apply_call m (VerifyContent h) s = storage_after s (verifyContent m h s)"
| "apply_call m (GetPublisherContent p) s = s"
| "apply_call m (GetPublisherReputation p) s = s"
| "apply_call m GetTotalRegistrations s = s"
| "apply_call m (GetContentDetails h) s = s"
| "apply_call m Pause s = storage_after s (pause m s)"
| "apply_call m Unpause s = storage_after s (unpause m s)"

fun run :: "transaction list \<Rightarrow> ContentVerification \<Rightarrow> ContentVerification" where
  "run [] s = s"
| "run ((m, c) # txs) s = run txs (apply_call m c s)"

text \<open>The storages the contract can reach from its deployment.\<close>

definition reachable :: "ContentVerification \<Rightarrow> bool" where
  "reachable s \<longleftrightarrow> (\<exists>deployer txs. s = run txs (constructor deployer))"

text \<open>Room left in the three counters a registration by \<open>p\<close> increments.\<close>

definition registration_fits :: "address \<Rightarrow> ContentVerification \<Rightarrow> bool" where
  "registration_fits p s \<longleftrightarrow>
     unat (PublisherReputation.totalRegistrations (publisherReputations s p)) + 1 < 2 ^ 256 \<and>
     unat (reputationScore (publisherReputations s p)) + 10 < 2 ^ 256 \<and>
     unat (totalRegistrations s) + 1 < 2 ^ 256"

text \<open>Room left in the two counters a verification of a record of \<open>p\<close> increments.\<close>

definition verification_fits :: "address \<Rightarrow> ContentVerification \<Rightarrow> bool" where
  "verification_fits p s \<longleftrightarrow>
     unat (verificationCount (publisherReputations s p)) + 1 < 2 ^ 256 \<and>
     unat (reputationScore (publisherReputations s p)) + 5 < 2 ^ 256"

text \<open>Every check of \<^verbatim>\<open>registerContent\<close> other than the pause gate.\<close>

definition otherwise_valid :: "msg \<Rightarrow> bytes32 \<Rightarrow> string \<Rightarrow> string \<Rightarrow> ContentVerification \<Rightarrow> bool" where
  "otherwise_valid m h ty meta s \<longleftrightarrow>
     validContentType ty \<and> h \<noteq> 0 \<and> \<not> exists (contentRegistry s h) \<and> 0 < length meta \<and>
     registration_fits (sender m) s"

text \<open>A slot of \<^verbatim>\<open>contentRegistry\<close> that holds no record holds the zero value.\<close>

definition absent_is_zero :: "ContentVerification \<Rightarrow> bool" where
  "absent_is_zero s \<longleftrightarrow> (\<forall>h. \<not> exists (contentRegistry s h) \<longrightarrow> contentRegistry s h = zeroContent)"

text \<open>Accounts and transactions used in the examples.\<close>

definition deployer :: address where
  "deployer = 0xD0"

definition alice :: msg where
  "alice = \<lparr>sender = 0xA11CE, block_timestamp = 1700000000\<rparr>"

definition bob :: msg where
  "bob = \<lparr>sender = 0xB0B, block_timestamp = 1700000600\<rparr>"

definition admin :: msg where
  "admin = \<lparr>sender = 0xD0, block_timestamp = 1700001200\<rparr>"

definition registered5 :: ContentVerification where
  "registered5 = apply_call alice (RegisterContent 5 ''article'' ''ipfs://Qm123'') (constructor deployer)"

text \<open>
  The storage after \<open>saturating_count\<close> further verifications of fingerprint 5, and
  the storage after the owner has paused the registry.
\<close>

definition saturating_count :: nat where
  "saturating_count = (2 ^ 256 - 11) div 5"

definition saturated :: ContentVerification where
  "saturated = run (replicate saturating_count (bob, VerifyContent 5)) registered5"

definition paused5 :: ContentVerification where
  "paused5 = apply_call admin Pause registered5"

section \<open>Properties of the registry\<close>


lemma checked_add_fits:
  "unat a + unat b < 2 ^ 256 \<Longrightarrow> checked_add a b = Inr (a + b)"
  by (simp add: checked_add_def)

lemma checked_add_overflow:
  "\<not> unat a + unat b < 2 ^ 256 \<Longrightarrow> checked_add a b = Inl Panic"
  by (simp add: checked_add_def)

lemma unat_checked_sum:
  "unat a + unat b < 2 ^ 256 \<Longrightarrow> unat ((a::uint256) + b) = unat a + unat b"
  by (simp add: unat_word_ariths)

lemma registerContent_succeeds_iff:
  "\<not> isl (registerContent m h ty meta s) \<longleftrightarrow> \<not> paused s \<and> otherwise_valid m h ty meta s"
  by (auto simp: registerContent_def otherwise_valid_def registration_fits_def checked_add_def Let_def
      split: sum.splits)

lemma registerContent_Inr:
  assumes "registerContent m h ty meta s = Inr (s', ev)"
  shows "\<not> paused s" "validContentType ty" "h \<noteq> 0" "\<not> exists (contentRegistry s h)" "meta \<noteq> []"
    "registration_fits (sender m) s"
    "contentRegistry s' = (contentRegistry s)(h := \<lparr>contentHash = h, timestamp = block_timestamp m,
        publisher = sender m, contentType = ty, ipfsMetadata = meta, exists = True\<rparr>)"
    "publisherContent s' = (publisherContent s)(sender m := publisherContent s (sender m) @ [h])"
    "publisherReputations s' = (publisherReputations s)(sender m := (publisherReputations s (sender m))
        \<lparr>PublisherReputation.totalRegistrations := PublisherReputation.totalRegistrations (publisherReputations s (sender m)) + 1,
         reputationScore := reputationScore (publisherReputations s (sender m)) + 10\<rparr>)"
    "totalRegistrations s' = totalRegistrations s + 1"
    "owner s' = owner s" "paused s' = paused s"
    "ev = [ContentRegistered h (sender m) (block_timestamp m) ty meta]"
  using assms
  by (auto simp: registerContent_def registration_fits_def checked_add_def Let_def
      split: sum.splits if_splits)


lemma verifyContent_miss:
  "\<not> exists (contentRegistry s h) \<Longrightarrow>
   verifyContent m h s = Inr (s, [ContentVerified h False (sender m)],
     (False, publisher (contentRegistry s h), timestamp (contentRegistry s h),
      contentType (contentRegistry s h), ipfsMetadata (contentRegistry s h)))"
  by (simp add: verifyContent_def Let_def)

lemma verifyContent_hit:
  assumes "exists (contentRegistry s h)"
    and "verification_fits (publisher (contentRegistry s h)) s"
  shows "verifyContent m h s =
     Inr (s\<lparr>publisherReputations := (publisherReputations s)
            (publisher (contentRegistry s h) :=
               (publisherReputations s (publisher (contentRegistry s h)))
                 \<lparr>verificationCount :=
                    verificationCount (publisherReputations s (publisher (contentRegistry s h))) + 1,
                  reputationScore :=
                    reputationScore (publisherReputations s (publisher (contentRegistry s h))) + 5\<rparr>)\<rparr>,
          [ContentVerified h True (sender m)],
          (True, publisher (contentRegistry s h), timestamp (contentRegistry s h),
           contentType (contentRegistry s h), ipfsMetadata (contentRegistry s h)))"
  using assms by (simp add: verifyContent_def verification_fits_def checked_add_def Let_def)

lemma verifyContent_overflow:
  assumes "exists (contentRegistry s h)"
    and "\<not> verification_fits (publisher (contentRegistry s h)) s"
  shows "verifyContent m h s = Inl Panic"
  using assms by (auto simp: verifyContent_def verification_fits_def checked_add_def Let_def)

lemma verifyContent_registry:
  "verifyContent m h s = Inr (s', x) \<Longrightarrow>
     contentRegistry s' = contentRegistry s \<and> publisherContent s' = publisherContent s \<and>
     totalRegistrations s' = totalRegistrations s \<and> owner s' = owner s \<and> paused s' = paused s"
  by (auto simp: verifyContent_def Let_def split: if_splits sum.splits)

lemma apply_call_record:
  "exists (contentRegistry s h) \<Longrightarrow> contentRegistry (apply_call m c s) h = contentRegistry s h"
proof (cases c)
  case (RegisterContent h' ty meta)
  assume ex: "exists (contentRegistry s h)"
  show ?thesis
  proof (cases "registerContent m h' ty meta s")
    case (Inl e)
    with RegisterContent show ?thesis by simp
  next
    case (Inr r)
    obtain s' ev where r: "r = (s', ev)" by (cases r)
    from registerContent_Inr(4,7)[OF Inr[unfolded r]] ex
    have "h' \<noteq> h" and "contentRegistry s' h = contentRegistry s h" by auto
    with RegisterContent Inr r show ?thesis by simp
  qed
next
  case (VerifyContent h')
  show ?thesis
  proof (cases "verifyContent m h' s")
    case (Inl e)
    with VerifyContent show ?thesis by simp
  next
    case (Inr r)
    obtain s' x where r: "r = (s', x)" by (cases r)
    from verifyContent_registry[OF Inr[unfolded r]] VerifyContent Inr r show ?thesis by simp
  qed
qed (simp_all add: pause_def unpause_def)

lemma run_record:
  "exists (contentRegistry s h) \<Longrightarrow> contentRegistry (run txs s) h = contentRegistry s h"
proof (induction txs arbitrary: s)
  case Nil
  then show ?case by simp
next
  case (Cons t txs)
  obtain m c where t: "t = (m, c)" by (cases t)
  from Cons.prems have same: "contentRegistry (apply_call m c s) h = contentRegistry s h"
    by (rule apply_call_record)
  with Cons.prems have "exists (contentRegistry (apply_call m c s) h)" by simp
  from Cons.IH[OF this] same t show ?case by simp
qed

lemma apply_call_owner: "owner (apply_call m c s) = owner s"
proof (cases c)
  case (RegisterContent h' ty meta)
  then show ?thesis
    by (cases "registerContent m h' ty meta s") (auto dest: registerContent_Inr(11))
next
  case (VerifyContent h')
  then show ?thesis
    by (cases "verifyContent m h' s") (auto dest: verifyContent_registry)
qed (simp_all add: pause_def unpause_def)

lemma run_owner: "owner (run txs s) = owner s"
  by (induction txs arbitrary: s) (auto simp: apply_call_owner)

lemma apply_call_absent_is_zero:
  assumes "absent_is_zero s" shows "absent_is_zero (apply_call m c s)"
proof (cases c)
  case (RegisterContent h' ty meta)
  show ?thesis
  proof (cases "registerContent m h' ty meta s")
    case (Inl e)
    with RegisterContent assms show ?thesis by simp
  next
    case (Inr r)
    obtain s' ev where r: "r = (s', ev)" by (cases r)
    from registerContent_Inr(7)[OF Inr[unfolded r]] assms
    have "absent_is_zero s'" by (simp add: absent_is_zero_def)
    with RegisterContent Inr r show ?thesis by simp
  qed
next
  case (VerifyContent h')
  show ?thesis
  proof (cases "verifyContent m h' s")
    case (Inl e)
    with VerifyContent assms show ?thesis by simp
  next
    case (Inr r)
    obtain s' x where r: "r = (s', x)" by (cases r)
    from verifyContent_registry[OF Inr[unfolded r]] assms
    have "absent_is_zero s'" by (simp add: absent_is_zero_def)
    with VerifyContent Inr r show ?thesis by simp
  qed
qed (use assms in \<open>simp_all add: pause_def unpause_def absent_is_zero_def\<close>)

lemma run_absent_is_zero: "absent_is_zero s \<Longrightarrow> absent_is_zero (run txs s)"
  by (induction txs arbitrary: s) (auto simp: apply_call_absent_is_zero)

lemma reachable_absent_is_zero: "reachable s \<Longrightarrow> absent_is_zero s"
proof -
  assume "reachable s"
  then obtain d txs where s: "s = run txs (constructor d)" by (auto simp: reachable_def)
  have "absent_is_zero (constructor d)" by (simp add: absent_is_zero_def constructor_def)
  then show ?thesis unfolding s by (rule run_absent_is_zero)
qed

lemma registered5_eq:
  "registerContent alice 5 ''article'' ''ipfs://Qm123'' (constructor deployer) =
     Inr (registered5, [ContentRegistered 5 0xA11CE 1700000000 ''article'' ''ipfs://Qm123''])"
  by (simp add: registered5_def registerContent_def validContentType_def constructor_def
      alice_def zeroContent_def zeroReputation_def checked_add_def Let_def)

lemma reachable_registered5: "reachable registered5"
  unfolding reachable_def registered5_def
  by (rule exI[of _ deployer], rule exI[of _ "[(alice, RegisterContent 5 ''article'' ''ipfs://Qm123'')]"]) simp

text \<open>
  Claim C2. A successful \<^verbatim>\<open>registerContent\<close> by publisher \<open>sender m\<close>, from any storage:
  the publisher's \<^verbatim>\<open>totalRegistrations\<close> grows by exactly 1 and the \<^verbatim>\<open>reputationScore\<close>
  by exactly 10, the global counter grows by exactly 1, the fingerprint is appended to the
  publisher's list, and the new record holds the caller, the category and the pointer.
  The counters are read as numbers (\<open>unat\<close>): nothing wraps around.
\<close>

theorem register_effects:
  assumes "registerContent m h ty meta s = Inr (s', ev)"
  shows "unat (PublisherReputation.totalRegistrations (publisherReputations s' (sender m))) =
           unat (PublisherReputation.totalRegistrations (publisherReputations s (sender m))) + 1 \<and>
         unat (reputationScore (publisherReputations s' (sender m))) =
           unat (reputationScore (publisherReputations s (sender m))) + 10 \<and>
         unat (totalRegistrations s') = unat (totalRegistrations s) + 1 \<and>
         publisherContent s' (sender m) = publisherContent s (sender m) @ [h] \<and>
         contentRegistry s' h =
           \<lparr>contentHash = h, timestamp = block_timestamp m, publisher = sender m,
            contentType = ty, ipfsMetadata = meta, exists = True\<rparr>"
proof -
  note r = registerContent_Inr[OF assms]
  from r(6) have fits:
    "unat (PublisherReputation.totalRegistrations (publisherReputations s (sender m))) + unat (1::uint256) < 2 ^ 256"
    "unat (reputationScore (publisherReputations s (sender m))) + unat (10::uint256) < 2 ^ 256"
    "unat (totalRegistrations s) + unat (1::uint256) < 2 ^ 256"
    by (simp_all add: registration_fits_def)
  show ?thesis
    using fits[THEN unat_checked_sum] by (simp add: r(7-10))
qed

theorem register_effects_witness:
  "registerContent alice 5 ''article'' ''ipfs://Qm123'' (constructor deployer) =
     Inr (registered5, [ContentRegistered 5 0xA11CE 1700000000 ''article'' ''ipfs://Qm123'']) \<and>
   unat (PublisherReputation.totalRegistrations (publisherReputations registered5 0xA11CE)) = 1 \<and>
   unat (reputationScore (publisherReputations registered5 0xA11CE)) = 10 \<and>
   unat (totalRegistrations registered5) = 1 \<and>
   publisherContent registered5 0xA11CE = [5] \<and>
   contentRegistry registered5 5 =
     \<lparr>contentHash = 5, timestamp = 1700000000, publisher = 0xA11CE,
      contentType = ''article'', ipfsMetadata = ''ipfs://Qm123'', exists = True\<rparr>"
proof -
  have "sender alice = 0xA11CE" "block_timestamp alice = 1700000000"
    by (simp_all add: alice_def)
  with register_effects[OF registered5_eq] registered5_eq show ?thesis
    by (simp add: constructor_def zeroReputation_def)
qed

text \<open>
  Claim C4. On a fingerprint that holds no record, in any storage the contract can reach,
  \<^verbatim>\<open>verifyContent\<close> does not fail: it returns \<open>exists = False\<close> with the zero address, the
  zero timestamp and two empty strings, and the storage it leaves is the one it found.
\<close>

theorem verify_miss:
  assumes "reachable s" and "\<not> exists (contentRegistry s h)"
  shows "verifyContent m h s =
           Inr (s, [ContentVerified h False (sender m)], (False, 0, 0, [], []))"
proof -
  from assms have "contentRegistry s h = zeroContent"
    using reachable_absent_is_zero by (simp add: absent_is_zero_def)
  with verifyContent_miss[OF assms(2), of m] show ?thesis
    by (simp add: zeroContent_def)
qed

lemma registered5_absent6: "\<not> exists (contentRegistry registered5 6)"
  using registerContent_Inr(7)[OF registered5_eq]
  by (simp add: constructor_def zeroContent_def)

theorem verify_miss_witness:
  "reachable registered5 \<and> \<not> exists (contentRegistry registered5 6) \<and>
   verifyContent bob 6 registered5 =
     Inr (registered5, [ContentVerified 6 False 0xB0B], (False, 0, 0, [], []))"
  using verify_miss[OF reachable_registered5 registered5_absent6, of bob]
    reachable_registered5 registered5_absent6
  by (simp add: bob_def)

text \<open>
  Claim C5. A record that exists stays as it is under every sequence of transactions
  (registrations, verifications, pauses, reads, successful or reverted): no field changes
  and the record is never removed.
\<close>

theorem record_immutable:
  assumes "exists (contentRegistry s h)"
  shows "contentRegistry (run txs s) h = contentRegistry s h \<and>
         exists (contentRegistry (run txs s) h)"
  using run_record[OF assms, of txs] assms by simp

lemma registered5_record:
  "contentRegistry registered5 5 =
     \<lparr>contentHash = 5, timestamp = 1700000000, publisher = 0xA11CE,
      contentType = ''article'', ipfsMetadata = ''ipfs://Qm123'', exists = True\<rparr>"
  using registerContent_Inr(7)[OF registered5_eq] by (simp add: alice_def)

theorem record_immutable_witness:
  "exists (contentRegistry registered5 5) \<and>
   contentRegistry
     (run [(bob, VerifyContent 5), (admin, Pause), (bob, RegisterContent 5 ''image'' ''ipfs://other''),
           (admin, Unpause), (bob, RegisterContent 5 ''image'' ''ipfs://other''),
           (bob, GetContentDetails 5)] registered5) 5 =
     \<lparr>contentHash = 5, timestamp = 1700000000, publisher = 0xA11CE,
      contentType = ''article'', ipfsMetadata = ''ipfs://Qm123'', exists = True\<rparr>"
proof -
  have ex: "exists (contentRegistry registered5 5)" by (simp add: registered5_record)
  from record_immutable[OF ex] have
    "contentRegistry
      (run [(bob, VerifyContent 5), (admin, Pause), (bob, RegisterContent 5 ''image'' ''ipfs://other''),
            (admin, Unpause), (bob, RegisterContent 5 ''image'' ''ipfs://other''),
            (bob, GetContentDetails 5)] registered5) 5 = contentRegistry registered5 5"
    by blast
  with ex show ?thesis by (simp only: registered5_record simp_thms)
qed

text \<open>A fingerprint no transaction ever tried to register holds no record.\<close>

lemma never_called_absent:
  assumes "\<forall>(m, c) \<in> set txs. \<forall>ty meta. c \<noteq> RegisterContent h ty meta"
    and "\<not> exists (contentRegistry s h)"
  shows "\<not> exists (contentRegistry (run txs s) h)"
  using assms
proof (induction txs arbitrary: s)
  case Nil
  then show ?case by simp
next
  case (Cons t txs)
  obtain m c where t: "t = (m, c)" by (cases t)
  have "\<not> exists (contentRegistry (apply_call m c s) h)"
  proof (cases c)
    case (RegisterContent h' ty meta)
    with Cons.prems(1) t have ne: "h' \<noteq> h" by auto
    show ?thesis
    proof (cases "registerContent m h' ty meta s")
      case (Inl e)
      with RegisterContent Cons.prems(2) show ?thesis by simp
    next
      case (Inr r)
      obtain s' ev where r: "r = (s', ev)" by (cases r)
      from registerContent_Inr(7)[OF Inr[unfolded r]] ne Cons.prems(2) RegisterContent Inr r
      show ?thesis by simp
    qed
  next
    case (VerifyContent h')
    show ?thesis
    proof (cases "verifyContent m h' s")
      case (Inl e)
      with VerifyContent Cons.prems(2) show ?thesis by simp
    next
      case (Inr r)
      obtain s' x where r: "r = (s', x)" by (cases r)
      from verifyContent_registry[OF Inr[unfolded r]] Cons.prems(2) VerifyContent Inr r
      show ?thesis by simp
    qed
  qed (use Cons.prems(2) in \<open>simp_all add: pause_def unpause_def\<close>)
  moreover from Cons.prems(1) have "\<forall>(m, c) \<in> set txs. \<forall>ty meta. c \<noteq> RegisterContent h ty meta"
    by simp
  ultimately show ?case using Cons.IH t by simp
qed

lemma run_append: "run (xs @ ys) s = run ys (run xs s)"
  by (induction xs arbitrary: s) auto

lemma run_verify_replicate:
  assumes "exists (contentRegistry s h)"
    and "unat (verificationCount (publisherReputations s (publisher (contentRegistry s h)))) + n < 2 ^ 256"
    and "unat (reputationScore (publisherReputations s (publisher (contentRegistry s h)))) + 5 * n < 2 ^ 256"
  shows "run (replicate n (m, VerifyContent h)) s =
     s\<lparr>publisherReputations := (publisherReputations s)
          (publisher (contentRegistry s h) :=
             (publisherReputations s (publisher (contentRegistry s h)))
               \<lparr>verificationCount :=
                  verificationCount (publisherReputations s (publisher (contentRegistry s h))) + of_nat n,
                reputationScore :=
                  reputationScore (publisherReputations s (publisher (contentRegistry s h))) + 5 * of_nat n\<rparr>)\<rparr>"
  using assms
proof (induction n arbitrary: s)
  case 0
  then show ?case by simp
next
  case (Suc n)
  let ?p = "publisher (contentRegistry s h)"
  let ?rep = "publisherReputations s ?p"
  let ?s1 = "s\<lparr>publisherReputations := (publisherReputations s)
            (?p := ?rep\<lparr>verificationCount := verificationCount ?rep + 1,
                  reputationScore := reputationScore ?rep + 5\<rparr>)\<rparr>"
  from Suc.prems have fits: "verification_fits ?p s"
    by (simp add: verification_fits_def)
  have step: "apply_call m (VerifyContent h) s = ?s1"
    using verifyContent_hit[OF Suc.prems(1) fits, of m] by simp
  have u1: "unat (verificationCount ?rep + 1) = unat (verificationCount ?rep) + 1"
    using Suc.prems(2) unat_checked_sum[of "verificationCount ?rep" 1] by simp
  have u5: "unat (reputationScore ?rep + 5) = unat (reputationScore ?rep) + 5"
    using Suc.prems(3) unat_checked_sum[of "reputationScore ?rep" 5] by simp
  have ex1: "exists (contentRegistry ?s1 h)" using Suc.prems(1) by simp
  have "run (replicate n (m, VerifyContent h)) ?s1 =
     ?s1\<lparr>publisherReputations := (publisherReputations ?s1)
          (publisher (contentRegistry ?s1 h) :=
             (publisherReputations ?s1 (publisher (contentRegistry ?s1 h)))
               \<lparr>verificationCount :=
                  verificationCount (publisherReputations ?s1 (publisher (contentRegistry ?s1 h))) + of_nat n,
                reputationScore :=
                  reputationScore (publisherReputations ?s1 (publisher (contentRegistry ?s1 h))) + 5 * of_nat n\<rparr>)\<rparr>"
    by (rule Suc.IH[OF ex1]) (use Suc.prems(2,3) u1 u5 in simp_all)
  moreover have "run (replicate (Suc n) (m, VerifyContent h)) s =
      run (replicate n (m, VerifyContent h)) (apply_call m (VerifyContent h) s)"
    by simp
  ultimately have "run (replicate (Suc n) (m, VerifyContent h)) s =
     ?s1\<lparr>publisherReputations := (publisherReputations ?s1)
          (publisher (contentRegistry ?s1 h) :=
             (publisherReputations ?s1 (publisher (contentRegistry ?s1 h)))
               \<lparr>verificationCount :=
                  verificationCount (publisherReputations ?s1 (publisher (contentRegistry ?s1 h))) + of_nat n,
                reputationScore :=
                  reputationScore (publisherReputations ?s1 (publisher (contentRegistry ?s1 h))) + 5 * of_nat n\<rparr>)\<rparr>"
    by (simp only: step)
  also have "\<dots> = s\<lparr>publisherReputations := (publisherReputations s)
          (?p := ?rep\<lparr>verificationCount := verificationCount ?rep + of_nat (Suc n),
                reputationScore := reputationScore ?rep + 5 * of_nat (Suc n)\<rparr>)\<rparr>"
    by (simp add: algebra_simps)
  finally show ?case .
qed

lemma saturated_eq:
  "saturated = registered5\<lparr>publisherReputations := (publisherReputations registered5)
      (0xA11CE := \<lparr>PublisherReputation.totalRegistrations = 1,
                   verificationCount = of_nat saturating_count,
                   reputationScore = 10 + 5 * of_nat saturating_count\<rparr>)\<rparr>"
proof -
  have ex: "exists (contentRegistry registered5 5)" by (simp add: registered5_record)
  have pub: "publisher (contentRegistry registered5 5) = 0xA11CE" by (simp add: registered5_record)
  have rep: "publisherReputations registered5 0xA11CE =
      \<lparr>PublisherReputation.totalRegistrations = 1, verificationCount = 0, reputationScore = 10\<rparr>"
    using registerContent_Inr(9)[OF registered5_eq]
    by (simp add: alice_def constructor_def zeroReputation_def)
  show ?thesis
    unfolding saturated_def
    by (subst run_verify_replicate[OF ex]) (simp_all add: pub rep saturating_count_def)
qed

lemma saturated_score:
  "unat (reputationScore (publisherReputations saturated 0xA11CE)) = 2 ^ 256 - 1"
proof -
  have "reputationScore (publisherReputations saturated 0xA11CE) = (- 1 :: uint256)"
    by (simp add: saturated_eq saturating_count_def)
  moreover have "unat (- 1 :: uint256) = 2 ^ 256 - 1"
    by (simp add: unsigned_minus_1_eq_mask mask_eq_exp_minus_1)
  ultimately show ?thesis by simp
qed

text \<open>
  At the very end of the range of the counter the checked addition aborts the call: after
  one registration and \<open>saturating_count\<close> verifications the score is \<open>2 ^ 256 - 1\<close>.
\<close>

lemma verify_reverts_at_range_end:
  "reachable saturated \<and> exists (contentRegistry saturated 5) \<and>
   verifyContent bob 5 saturated = Inl Panic"
proof -
  have r: "reachable saturated"
    unfolding reachable_def saturated_def registered5_def
    by (rule exI[of _ deployer],
        rule exI[of _ "(alice, RegisterContent 5 ''article'' ''ipfs://Qm123'') #
                       replicate saturating_count (bob, VerifyContent 5)"]) simp
  have ex: "exists (contentRegistry saturated 5)"
    by (simp add: saturated_eq registered5_record)
  have pub: "publisher (contentRegistry saturated 5) = 0xA11CE"
    by (simp add: saturated_eq registered5_record)
  have "\<not> verification_fits (publisher (contentRegistry saturated 5)) saturated"
    by (simp add: pub verification_fits_def saturated_score)
  from verifyContent_overflow[OF ex this] r ex show ?thesis by simp
qed

lemma unat_add_of_nat:
  assumes "unat (x::uint256) + n < 2 ^ 256"
  shows "unat (x + of_nat n) = unat x + n"
proof -
  from assms have "n < 2 ^ 256" by simp
  then have "unat (of_nat n :: uint256) = n" by (simp add: unat_of_nat)
  with assms unat_checked_sum[of x "of_nat n"] show ?thesis by simp
qed

text \<open>
  Claim C3. On a fingerprint whose record exists, \<^verbatim>\<open>verifyContent\<close> returns
  \<open>exists = True\<close> with the stored record and adds exactly 1 to the publisher's
  \<^verbatim>\<open>verificationCount\<close> and exactly 5 to the \<^verbatim>\<open>reputationScore\<close>; the record is not
  touched, so the next call rewards again: \<open>n\<close> calls in a row add \<open>n\<close> and
  \<open>5 * n\<close>, for every \<open>n\<close>, with no limit on the rate or the number of calls. The
  hypotheses say that the counters stay in the range of \<^verbatim>\<open>uint256\<close>: the two sums are
  below \<open>2 ^ 256\<close>.
\<close>

theorem verify_hit:
  assumes "exists (contentRegistry s h)"
    and "0 < n"
    and "unat (verificationCount (publisherReputations s (publisher (contentRegistry s h)))) + n
           < 2 ^ 256"
    and "unat (reputationScore (publisherReputations s (publisher (contentRegistry s h)))) + 5 * n
           < 2 ^ 256"
  shows "(\<exists>s'. verifyContent m h s =
            Inr (s', [ContentVerified h True (sender m)],
                 (True, publisher (contentRegistry s h), timestamp (contentRegistry s h),
                  contentType (contentRegistry s h), ipfsMetadata (contentRegistry s h))) \<and>
          unat (verificationCount (publisherReputations s' (publisher (contentRegistry s h)))) =
            unat (verificationCount (publisherReputations s (publisher (contentRegistry s h)))) + 1 \<and>
          unat (reputationScore (publisherReputations s' (publisher (contentRegistry s h)))) =
            unat (reputationScore (publisherReputations s (publisher (contentRegistry s h)))) + 5 \<and>
          contentRegistry s' = contentRegistry s) \<and>
         unat (verificationCount (publisherReputations (run (replicate n (m, VerifyContent h)) s)
                 (publisher (contentRegistry s h)))) =
           unat (verificationCount (publisherReputations s (publisher (contentRegistry s h)))) + n \<and>
         unat (reputationScore (publisherReputations (run (replicate n (m, VerifyContent h)) s)
                 (publisher (contentRegistry s h)))) =
           unat (reputationScore (publisherReputations s (publisher (contentRegistry s h)))) + 5 * n \<and>
         contentRegistry (run (replicate n (m, VerifyContent h)) s) = contentRegistry s"
proof -
  let ?p = "publisher (contentRegistry s h)"
  let ?rep = "publisherReputations s ?p"
  from assms(2-4) have one:
    "unat (verificationCount ?rep) + unat (1::uint256) < 2 ^ 256"
    "unat (reputationScore ?rep) + unat (5::uint256) < 2 ^ 256"
    by simp_all
  then have fits: "verification_fits ?p s" by (simp add: verification_fits_def)
  have single: "\<exists>s'. verifyContent m h s =
            Inr (s', [ContentVerified h True (sender m)],
                 (True, ?p, timestamp (contentRegistry s h),
                  contentType (contentRegistry s h), ipfsMetadata (contentRegistry s h))) \<and>
          unat (verificationCount (publisherReputations s' ?p)) = unat (verificationCount ?rep) + 1 \<and>
          unat (reputationScore (publisherReputations s' ?p)) = unat (reputationScore ?rep) + 5 \<and>
          contentRegistry s' = contentRegistry s"
    using one[THEN unat_checked_sum] by (simp add: verifyContent_hit[OF assms(1) fits])
  have five: "5 * (of_nat n :: uint256) = of_nat (5 * n)" by simp
  have many: "run (replicate n (m, VerifyContent h)) s =
     s\<lparr>publisherReputations := (publisherReputations s)
          (?p := ?rep\<lparr>verificationCount := verificationCount ?rep + of_nat n,
                        reputationScore := reputationScore ?rep + of_nat (5 * n)\<rparr>)\<rparr>"
    using run_verify_replicate[OF assms(1) assms(3) assms(4), of m] unfolding five .
  have vc: "unat (verificationCount ?rep + of_nat n) = unat (verificationCount ?rep) + n"
    by (rule unat_add_of_nat[OF assms(3)])
  have rs: "unat (reputationScore ?rep + of_nat (5 * n)) = unat (reputationScore ?rep) + 5 * n"
    by (rule unat_add_of_nat[OF assms(4)])
  have counts:
    "unat (verificationCount (publisherReputations (run (replicate n (m, VerifyContent h)) s) ?p)) =
       unat (verificationCount ?rep) + n"
    "unat (reputationScore (publisherReputations (run (replicate n (m, VerifyContent h)) s) ?p)) =
       unat (reputationScore ?rep) + 5 * n"
    "contentRegistry (run (replicate n (m, VerifyContent h)) s) = contentRegistry s"
    unfolding many using vc rs by simp_all
  from single counts show ?thesis by blast
qed

theorem verify_hit_witness:
  "exists (contentRegistry registered5 5) \<and>
   unat (verificationCount (publisherReputations registered5
           (publisher (contentRegistry registered5 5)))) + 3 < 2 ^ 256 \<and>
   unat (reputationScore (publisherReputations registered5
           (publisher (contentRegistry registered5 5)))) + 5 * 3 < 2 ^ 256 \<and>
   (\<exists>s'. verifyContent bob 5 registered5 =
      Inr (s', [ContentVerified 5 True 0xB0B],
           (True, 0xA11CE, 1700000000, ''article'', ''ipfs://Qm123'')) \<and>
      unat (verificationCount (publisherReputations s' 0xA11CE)) = 1 \<and>
      unat (reputationScore (publisherReputations s' 0xA11CE)) = 15 \<and>
      contentRegistry s' = contentRegistry registered5) \<and>
   unat (verificationCount (publisherReputations
           (run (replicate 3 (bob, VerifyContent 5)) registered5) 0xA11CE)) = 3 \<and>
   unat (reputationScore (publisherReputations
           (run (replicate 3 (bob, VerifyContent 5)) registered5) 0xA11CE)) = 25"
proof -
  have ex: "exists (contentRegistry registered5 5)" by (simp add: registered5_record)
  have rep: "publisherReputations registered5 0xA11CE =
      \<lparr>PublisherReputation.totalRegistrations = 1, verificationCount = 0, reputationScore = 10\<rparr>"
    using registerContent_Inr(9)[OF registered5_eq]
    by (simp add: alice_def constructor_def zeroReputation_def)
  have pub: "publisher (contentRegistry registered5 5) = 0xA11CE"
    by (simp add: registered5_record)
  have r1: "unat (verificationCount (publisherReputations registered5
           (publisher (contentRegistry registered5 5)))) + 3 < 2 ^ 256"
    and r2: "unat (reputationScore (publisherReputations registered5
           (publisher (contentRegistry registered5 5)))) + 5 * 3 < 2 ^ 256"
    by (simp_all add: pub rep)
  have pos: "0 < (3::nat)" by simp
  from verify_hit[OF ex pos r1 r2, of bob] ex r1 r2 show ?thesis
    by (simp add: registered5_record rep bob_def)
qed

text \<open>
  Claim C1, as amended. When the registry is not paused and the input passes every other
  check (a category of the enumeration, a fingerprint that is not zero and holds no record,
  a pointer that is not empty, counters with room), \<^verbatim>\<open>registerContent\<close> succeeds; from then
  on, after any sequence of transactions, every \<^verbatim>\<open>registerContent\<close> with that fingerprint
  fails, whoever calls and whatever the pointer: with SystemPaused when the registry is
  paused, else with InvalidCategory when the category of that call is not of the
  enumeration, else with DuplicateFingerprint.
\<close>

theorem register_once:
  assumes "\<not> paused s" and "otherwise_valid m h ty meta s"
  shows "\<exists>s1 ev. registerContent m h ty meta s = Inr (s1, ev) \<and>
           (\<forall>txs m2 ty2 meta2.
              registerContent m2 h ty2 meta2 (run txs s1) =
                Inl (if paused (run txs s1) then SystemPaused
                     else if \<not> validContentType ty2 then InvalidCategory
                     else DuplicateFingerprint))"
proof -
  from assms have "\<not> isl (registerContent m h ty meta s)"
    by (simp add: registerContent_succeeds_iff)
  then obtain s1 ev where reg: "registerContent m h ty meta s = Inr (s1, ev)"
    by (cases "registerContent m h ty meta s") auto
  from registerContent_Inr(3,7)[OF reg] have "h \<noteq> 0" and "exists (contentRegistry s1 h)"
    by simp_all
  then have "\<And>txs. exists (contentRegistry (run txs s1) h)"
    by (simp add: run_record)
  with \<open>h \<noteq> 0\<close> have "\<forall>txs m2 ty2 meta2.
              registerContent m2 h ty2 meta2 (run txs s1) =
                Inl (if paused (run txs s1) then SystemPaused
                     else if \<not> validContentType ty2 then InvalidCategory
                     else DuplicateFingerprint)"
    by (simp add: registerContent_def)
  with reg show ?thesis by blast
qed

lemma constructor_valid5:
  "\<not> paused (constructor deployer) \<and>
   otherwise_valid alice 5 ''article'' ''ipfs://Qm123'' (constructor deployer)"
  by (simp add: otherwise_valid_def registration_fits_def validContentType_def constructor_def
      zeroContent_def zeroReputation_def)

theorem register_once_witness:
  "\<not> paused (constructor deployer) \<and>
   otherwise_valid alice 5 ''article'' ''ipfs://Qm123'' (constructor deployer) \<and>
   registerContent alice 5 ''article'' ''ipfs://Qm123'' (constructor deployer) =
     Inr (registered5, [ContentRegistered 5 0xA11CE 1700000000 ''article'' ''ipfs://Qm123'']) \<and>
   registerContent bob 5 ''image'' [] (run [(bob, VerifyContent 5)] registered5) =
     Inl DuplicateFingerprint"
proof -
  from register_once[OF constructor_valid5[THEN conjunct1] constructor_valid5[THEN conjunct2]]
  have "registerContent bob 5 ''image'' [] (run [(bob, VerifyContent 5)] registered5) =
     Inl (if paused (run [(bob, VerifyContent 5)] registered5) then SystemPaused
          else if \<not> validContentType ''image'' then InvalidCategory
          else DuplicateFingerprint)"
    unfolding registered5_eq by blast
  moreover have "\<not> paused (run [(bob, VerifyContent 5)] registered5)"
    using registerContent_Inr(12)[OF registered5_eq]
    by (cases "verifyContent bob 5 registered5")
       (auto dest: verifyContent_registry simp: constructor_def)
  ultimately have "registerContent bob 5 ''image'' [] (run [(bob, VerifyContent 5)] registered5) =
     Inl DuplicateFingerprint"
    by (simp add: validContentType_def)
  with constructor_valid5 registered5_eq show ?thesis by blast
qed

text \<open>
  Claim C1 as stated fails on the category of the second call: the modifier
  \<^verbatim>\<open>validContentType\<close> runs before the duplicate check of the body.
\<close>

theorem register_once_counterexample:
  "registerContent alice 5 ''article'' ''ipfs://Qm123'' (constructor deployer) =
     Inr (registered5, [ContentRegistered 5 0xA11CE 1700000000 ''article'' ''ipfs://Qm123'']) \<and>
   registerContent bob 5 ''podcast'' ''ipfs://Qm456'' registered5 = Inl InvalidCategory \<and>
   registerContent bob 5 ''podcast'' ''ipfs://Qm456'' registered5 \<noteq> Inl DuplicateFingerprint"
proof -
  have "\<not> paused registered5"
    using registerContent_Inr(12)[OF registered5_eq] by (simp add: constructor_def)
  then have "registerContent bob 5 ''podcast'' ''ipfs://Qm456'' registered5 = Inl InvalidCategory"
    by (simp add: registerContent_def validContentType_def)
  with registered5_eq show ?thesis by simp
qed

text \<open>
  Claim C6. In a paused registry every \<^verbatim>\<open>registerContent\<close> fails with SystemPaused,
  whatever its input. For an input that passes every other check (a category of the
  enumeration, a fingerprint that is not zero and holds no record, a pointer that is not
  empty, and the three counters of the registration below the end of the range of
  \<^verbatim>\<open>uint256\<close>), \<^verbatim>\<open>unpause\<close> by the owner clears the flag and the same call then
  succeeds, with the record, the list and the counters it writes spelled out.
  \<^verbatim>\<open>verifyContent\<close> works while the registry is paused as it does otherwise: a miss
  returns \<open>exists = False\<close> and changes nothing, a hit returns the record and rewards the
  publisher (the two counters of the reward being below the end of the range of
  \<^verbatim>\<open>uint256\<close>). The view functions return the stored values. In every storage, paused or
  not, \<^verbatim>\<open>pause\<close> and \<^verbatim>\<open>unpause\<close> succeed when the caller is the owner and fail with
  NotOwner for every other caller, and no transaction changes who the owner is.
\<close>

theorem pause_gate:
  "(paused s \<longrightarrow> registerContent m h ty meta s = Inl SystemPaused) \<and>
   (paused s \<and> sender mo = owner s \<and> validContentType ty \<and> h \<noteq> 0 \<and>
    \<not> exists (contentRegistry s h) \<and> meta \<noteq> [] \<and>
    unat (PublisherReputation.totalRegistrations (publisherReputations s (sender m))) + 1 < 2 ^ 256 \<and>
    unat (reputationScore (publisherReputations s (sender m))) + 10 < 2 ^ 256 \<and>
    unat (totalRegistrations s) + 1 < 2 ^ 256 \<longrightarrow>
      unpause mo s =
        Inr (s\<lparr>paused := False\<rparr>, [ContractUnpaused (sender mo) (block_timestamp mo)]) \<and>
      registerContent m h ty meta (s\<lparr>paused := False\<rparr>) =
        Inr (s\<lparr>paused := False,
               contentRegistry := (contentRegistry s)
                 (h := \<lparr>contentHash = h, timestamp = block_timestamp m, publisher = sender m,
                        contentType = ty, ipfsMetadata = meta, exists = True\<rparr>),
               publisherContent := (publisherContent s)
                 (sender m := publisherContent s (sender m) @ [h]),
               publisherReputations := (publisherReputations s)
                 (sender m := (publisherReputations s (sender m))
                    \<lparr>PublisherReputation.totalRegistrations :=
                       PublisherReputation.totalRegistrations (publisherReputations s (sender m)) + 1,
                     reputationScore := reputationScore (publisherReputations s (sender m)) + 10\<rparr>),
               totalRegistrations := totalRegistrations s + 1\<rparr>,
             [ContentRegistered h (sender m) (block_timestamp m) ty meta])) \<and>
   (paused s \<and> \<not> exists (contentRegistry s hv) \<longrightarrow>
      verifyContent mv hv s =
        Inr (s, [ContentVerified hv False (sender mv)],
             (False, publisher (contentRegistry s hv), timestamp (contentRegistry s hv),
              contentType (contentRegistry s hv), ipfsMetadata (contentRegistry s hv)))) \<and>
   (paused s \<and> exists (contentRegistry s hv) \<and>
    unat (verificationCount (publisherReputations s (publisher (contentRegistry s hv)))) + 1
      < 2 ^ 256 \<and>
    unat (reputationScore (publisherReputations s (publisher (contentRegistry s hv)))) + 5
      < 2 ^ 256 \<longrightarrow>
      verifyContent mv hv s =
        Inr (s\<lparr>publisherReputations := (publisherReputations s)
               (publisher (contentRegistry s hv) :=
                  (publisherReputations s (publisher (contentRegistry s hv)))
                    \<lparr>verificationCount :=
                       verificationCount
                         (publisherReputations s (publisher (contentRegistry s hv))) + 1,
                     reputationScore :=
                       reputationScore
                         (publisherReputations s (publisher (contentRegistry s hv))) + 5\<rparr>)\<rparr>,
             [ContentVerified hv True (sender mv)],
             (True, publisher (contentRegistry s hv), timestamp (contentRegistry s hv),
              contentType (contentRegistry s hv), ipfsMetadata (contentRegistry s hv)))) \<and>
   getPublisherContent p s = publisherContent s p \<and>
   getPublisherReputation p s =
     (PublisherReputation.totalRegistrations (publisherReputations s p),
      verificationCount (publisherReputations s p), reputationScore (publisherReputations s p)) \<and>
   getTotalRegistrations s = totalRegistrations s \<and>
   getContentDetails hv s = contentRegistry s hv \<and>
   pause ma s =
     (if sender ma = owner s
      then Inr (s\<lparr>paused := True\<rparr>, [ContractPaused (sender ma) (block_timestamp ma)])
      else Inl NotOwner) \<and>
   unpause ma s =
     (if sender ma = owner s
      then Inr (s\<lparr>paused := False\<rparr>, [ContractUnpaused (sender ma) (block_timestamp ma)])
      else Inl NotOwner) \<and>
   owner (run txs s) = owner s"
proof -
  have a: "registerContent m h ty meta s = Inl SystemPaused" if "paused s"
    using that by (simp add: registerContent_def)
  have b: "unpause mo s =
        Inr (s\<lparr>paused := False\<rparr>, [ContractUnpaused (sender mo) (block_timestamp mo)])"
    if "sender mo = owner s"
    using that by (simp add: unpause_def)
  have c: "registerContent m h ty meta (s\<lparr>paused := False\<rparr>) =
        Inr (s\<lparr>paused := False,
               contentRegistry := (contentRegistry s)
                 (h := \<lparr>contentHash = h, timestamp = block_timestamp m, publisher = sender m,
                        contentType = ty, ipfsMetadata = meta, exists = True\<rparr>),
               publisherContent := (publisherContent s)
                 (sender m := publisherContent s (sender m) @ [h]),
               publisherReputations := (publisherReputations s)
                 (sender m := (publisherReputations s (sender m))
                    \<lparr>PublisherReputation.totalRegistrations :=
                       PublisherReputation.totalRegistrations (publisherReputations s (sender m)) + 1,
                     reputationScore := reputationScore (publisherReputations s (sender m)) + 10\<rparr>),
               totalRegistrations := totalRegistrations s + 1\<rparr>,
             [ContentRegistered h (sender m) (block_timestamp m) ty meta])"
    if "validContentType ty" "h \<noteq> 0" "\<not> exists (contentRegistry s h)" "meta \<noteq> []"
      "unat (PublisherReputation.totalRegistrations (publisherReputations s (sender m))) + 1 < 2 ^ 256"
      "unat (reputationScore (publisherReputations s (sender m))) + 10 < 2 ^ 256"
      "unat (totalRegistrations s) + 1 < 2 ^ 256"
    using that by (simp add: registerContent_def checked_add_def Let_def)
  have d: "verifyContent mv hv s =
        Inr (s, [ContentVerified hv False (sender mv)],
             (False, publisher (contentRegistry s hv), timestamp (contentRegistry s hv),
              contentType (contentRegistry s hv), ipfsMetadata (contentRegistry s hv)))"
    if "\<not> exists (contentRegistry s hv)"
    using that by (rule verifyContent_miss)
  have e: "verifyContent mv hv s =
        Inr (s\<lparr>publisherReputations := (publisherReputations s)
               (publisher (contentRegistry s hv) :=
                  (publisherReputations s (publisher (contentRegistry s hv)))
                    \<lparr>verificationCount :=
                       verificationCount
                         (publisherReputations s (publisher (contentRegistry s hv))) + 1,
                     reputationScore :=
                       reputationScore
                         (publisherReputations s (publisher (contentRegistry s hv))) + 5\<rparr>)\<rparr>,
             [ContentVerified hv True (sender mv)],
             (True, publisher (contentRegistry s hv), timestamp (contentRegistry s hv),
              contentType (contentRegistry s hv), ipfsMetadata (contentRegistry s hv)))"
    if "exists (contentRegistry s hv)"
      "unat (verificationCount (publisherReputations s (publisher (contentRegistry s hv)))) + 1
         < 2 ^ 256"
      "unat (reputationScore (publisherReputations s (publisher (contentRegistry s hv)))) + 5
         < 2 ^ 256"
    using that by (intro verifyContent_hit) (simp_all add: verification_fits_def)
  have f: "getPublisherContent p s = publisherContent s p \<and>
   getPublisherReputation p s =
     (PublisherReputation.totalRegistrations (publisherReputations s p),
      verificationCount (publisherReputations s p), reputationScore (publisherReputations s p)) \<and>
   getTotalRegistrations s = totalRegistrations s \<and>
   getContentDetails hv s = contentRegistry s hv"
    by (simp add: getPublisherContent_def getPublisherReputation_def getTotalRegistrations_def
        getContentDetails_def Let_def)
  have g: "pause ma s =
     (if sender ma = owner s
      then Inr (s\<lparr>paused := True\<rparr>, [ContractPaused (sender ma) (block_timestamp ma)])
      else Inl NotOwner)"
    "unpause ma s =
     (if sender ma = owner s
      then Inr (s\<lparr>paused := False\<rparr>, [ContractUnpaused (sender ma) (block_timestamp ma)])
      else Inl NotOwner)"
    by (simp_all add: pause_def unpause_def)
  from a b c d e f g run_owner[of txs s] show ?thesis by blast
qed

lemma paused5_eq: "paused5 = registered5\<lparr>paused := True\<rparr>"
proof -
  have "owner registered5 = deployer"
    using registerContent_Inr(11)[OF registered5_eq] by (simp add: constructor_def)
  then show ?thesis by (simp add: paused5_def pause_def admin_def deployer_def)
qed

lemma registered5_fields:
  "owner registered5 = 0xD0" "\<not> paused registered5"
  "publisherReputations registered5 0xB0B = zeroReputation"
  "publisherReputations registered5 0xA11CE =
     \<lparr>PublisherReputation.totalRegistrations = 1, verificationCount = 0, reputationScore = 10\<rparr>"
  "totalRegistrations registered5 = 1"
  "publisherContent registered5 0xB0B = []"
  using registerContent_Inr(8-12)[OF registered5_eq]
  by (simp_all add: alice_def constructor_def deployer_def zeroReputation_def)

theorem pause_gate_witness:
  "paused paused5 \<and>
   registerContent bob 6 ''image'' ''ipfs://Qm456'' paused5 = Inl SystemPaused \<and>
   unpause admin paused5 = Inr (registered5, [ContractUnpaused 0xD0 1700001200]) \<and>
   (\<exists>s3. registerContent bob 6 ''image'' ''ipfs://Qm456'' registered5 =
           Inr (s3, [ContentRegistered 6 0xB0B 1700000600 ''image'' ''ipfs://Qm456'']) \<and>
         contentRegistry s3 6 =
           \<lparr>contentHash = 6, timestamp = 1700000600, publisher = 0xB0B,
            contentType = ''image'', ipfsMetadata = ''ipfs://Qm456'', exists = True\<rparr> \<and>
         publisherContent s3 0xB0B = [6] \<and> totalRegistrations s3 = 2 \<and>
         reputationScore (publisherReputations s3 0xB0B) = 10) \<and>
   verifyContent bob 6 paused5 =
     Inr (paused5, [ContentVerified 6 False 0xB0B], (False, 0, 0, [], [])) \<and>
   (\<exists>s4. verifyContent bob 5 paused5 =
           Inr (s4, [ContentVerified 5 True 0xB0B],
                (True, 0xA11CE, 1700000000, ''article'', ''ipfs://Qm123'')) \<and>
         verificationCount (publisherReputations s4 0xA11CE) = 1 \<and>
         reputationScore (publisherReputations s4 0xA11CE) = 15 \<and> paused s4) \<and>
   getTotalRegistrations paused5 = 1 \<and>
   getContentDetails 5 paused5 =
     \<lparr>contentHash = 5, timestamp = 1700000000, publisher = 0xA11CE,
      contentType = ''article'', ipfsMetadata = ''ipfs://Qm123'', exists = True\<rparr> \<and>
   \<not> paused registered5 \<and>
   pause bob registered5 = Inl NotOwner \<and>
   pause admin registered5 = Inr (paused5, [ContractPaused 0xD0 1700001200]) \<and>
   unpause bob paused5 = Inl NotOwner \<and>
   unpause bob registered5 = Inl NotOwner"
proof -
  have unp: "paused5\<lparr>paused := False\<rparr> = registered5"
    using registered5_fields(2) by (simp add: paused5_eq)
  have p: "paused paused5" by (simp add: paused5_eq)
  have absent: "\<not> exists (contentRegistry paused5 6)"
    using registered5_absent6 by (simp add: paused5_eq)
  have zero6: "contentRegistry paused5 6 = zeroContent"
    using reachable_absent_is_zero[OF reachable_registered5] registered5_absent6
    by (simp add: paused5_eq absent_is_zero_def)
  note at_paused =
    pause_gate[where s = paused5 and m = bob and h = 6 and ty = "''image''"
      and meta = "''ipfs://Qm456''" and mo = admin and mv = bob and hv = 6 and ma = bob]
  note hit_paused =
    pause_gate[where s = paused5 and m = bob and h = 6 and ty = "''image''"
      and meta = "''ipfs://Qm456''" and mo = admin and mv = bob and hv = 5 and ma = bob]
  note at_active =
    pause_gate[where s = registered5 and m = bob and h = 6 and ty = "''image''"
      and meta = "''ipfs://Qm456''" and mo = admin and mv = bob and hv = 6 and ma = bob]
  note at_active_admin =
    pause_gate[where s = registered5 and m = bob and h = 6 and ty = "''image''"
      and meta = "''ipfs://Qm456''" and mo = admin and mv = bob and hv = 6 and ma = admin]
  have reg: "registerContent bob 6 ''image'' ''ipfs://Qm456'' paused5 = Inl SystemPaused"
    using at_paused p by blast
  have pre: "sender admin = owner paused5 \<and> validContentType ''image'' \<and> (6::bytes32) \<noteq> 0 \<and>
    \<not> exists (contentRegistry paused5 6) \<and> ''ipfs://Qm456'' \<noteq> [] \<and>
    unat (PublisherReputation.totalRegistrations (publisherReputations paused5 (sender bob))) + 1
      < 2 ^ 256 \<and>
    unat (reputationScore (publisherReputations paused5 (sender bob))) + 10 < 2 ^ 256 \<and>
    unat (totalRegistrations paused5) + 1 < 2 ^ 256"
    using absent
    by (simp add: paused5_eq registered5_fields admin_def bob_def validContentType_def
        zeroReputation_def)
  from at_paused p pre have
    u: "unpause admin paused5 =
        Inr (paused5\<lparr>paused := False\<rparr>, [ContractUnpaused (sender admin) (block_timestamp admin)])"
    and "\<exists>s3. registerContent bob 6 ''image'' ''ipfs://Qm456'' (paused5\<lparr>paused := False\<rparr>) =
        Inr (s3, [ContentRegistered 6 (sender bob) (block_timestamp bob) ''image'' ''ipfs://Qm456'']) \<and>
      contentRegistry s3 6 =
        \<lparr>contentHash = 6, timestamp = block_timestamp bob, publisher = sender bob,
         contentType = ''image'', ipfsMetadata = ''ipfs://Qm456'', exists = True\<rparr> \<and>
      publisherContent s3 (sender bob) = publisherContent paused5 (sender bob) @ [6] \<and>
      totalRegistrations s3 = totalRegistrations paused5 + 1 \<and>
      reputationScore (publisherReputations s3 (sender bob)) =
        reputationScore (publisherReputations paused5 (sender bob)) + 10"
    by auto
  then have r3: "\<exists>s3. registerContent bob 6 ''image'' ''ipfs://Qm456'' registered5 =
           Inr (s3, [ContentRegistered 6 0xB0B 1700000600 ''image'' ''ipfs://Qm456'']) \<and>
         contentRegistry s3 6 =
           \<lparr>contentHash = 6, timestamp = 1700000600, publisher = 0xB0B,
            contentType = ''image'', ipfsMetadata = ''ipfs://Qm456'', exists = True\<rparr> \<and>
         publisherContent s3 0xB0B = [6] \<and> totalRegistrations s3 = 2 \<and>
         reputationScore (publisherReputations s3 0xB0B) = 10"
    unfolding unp
    by (simp add: bob_def paused5_eq registered5_fields zeroReputation_def)
  have u': "unpause admin paused5 = Inr (registered5, [ContractUnpaused 0xD0 1700001200])"
    using u unfolding unp by (simp add: admin_def)
  have miss: "verifyContent bob 6 paused5 =
     Inr (paused5, [ContentVerified 6 False 0xB0B], (False, 0, 0, [], []))"
    using at_paused p absent by (simp add: zero6 zeroContent_def bob_def)
  have rec5: "contentRegistry paused5 5 =
     \<lparr>contentHash = 5, timestamp = 1700000000, publisher = 0xA11CE,
      contentType = ''article'', ipfsMetadata = ''ipfs://Qm123'', exists = True\<rparr>"
    by (simp add: paused5_eq registered5_record)
  have hitpre: "exists (contentRegistry paused5 5) \<and>
    unat (verificationCount (publisherReputations paused5 (publisher (contentRegistry paused5 5)))) + 1
      < 2 ^ 256 \<and>
    unat (reputationScore (publisherReputations paused5 (publisher (contentRegistry paused5 5)))) + 5
      < 2 ^ 256"
    by (simp add: rec5) (simp add: paused5_eq registered5_fields)
  from hit_paused p hitpre have "\<exists>s4. verifyContent bob 5 paused5 =
           Inr (s4, [ContentVerified 5 True (sender bob)],
                (True, publisher (contentRegistry paused5 5), timestamp (contentRegistry paused5 5),
                 contentType (contentRegistry paused5 5), ipfsMetadata (contentRegistry paused5 5))) \<and>
         verificationCount (publisherReputations s4 (publisher (contentRegistry paused5 5))) =
           verificationCount (publisherReputations paused5 (publisher (contentRegistry paused5 5))) + 1 \<and>
         reputationScore (publisherReputations s4 (publisher (contentRegistry paused5 5))) =
           reputationScore (publisherReputations paused5 (publisher (contentRegistry paused5 5))) + 5 \<and>
         paused s4"
    by auto
  then have hit: "\<exists>s4. verifyContent bob 5 paused5 =
           Inr (s4, [ContentVerified 5 True 0xB0B],
                (True, 0xA11CE, 1700000000, ''article'', ''ipfs://Qm123'')) \<and>
         verificationCount (publisherReputations s4 0xA11CE) = 1 \<and>
         reputationScore (publisherReputations s4 0xA11CE) = 15 \<and> paused s4"
    by (simp add: rec5 bob_def) (simp add: paused5_eq registered5_fields)
  have views: "getTotalRegistrations paused5 = 1 \<and>
     getContentDetails 5 paused5 =
       \<lparr>contentHash = 5, timestamp = 1700000000, publisher = 0xA11CE,
        contentType = ''article'', ipfsMetadata = ''ipfs://Qm123'', exists = True\<rparr>"
    using hit_paused by (simp add: rec5) (simp add: paused5_eq registered5_fields)
  have own: "pause bob registered5 = Inl NotOwner \<and> unpause bob registered5 = Inl NotOwner"
    using at_active by (simp add: registered5_fields bob_def)
  have own2: "unpause bob paused5 = Inl NotOwner"
    using at_paused by (simp add: paused5_eq registered5_fields bob_def)
  have own3: "pause admin registered5 = Inr (paused5, [ContractPaused 0xD0 1700001200])"
    using at_active_admin by (simp add: registered5_fields admin_def paused5_eq)
  from p reg u' r3 miss hit views registered5_fields(2) own own2 own3 show ?thesis by blast
qed

section \<open>Properties of the off-chain client\<close>

lemma length_hexToBytes32: "length (hexToBytes32 hex) = 66"
  by (simp add: hexToBytes32_def padStart_def Let_def)

text \<open>
  Claim C10. \<^verbatim>\<open>hexToBytes32\<close> returns 66 characters on every string: \<open>''0x''\<close> and then
  exactly 64 characters, which are the input without its \<open>''0x''\<close> prefix (when it has
  one), padded on the left with \<open>CHR ''0''\<close> up to 64 or cut after 64. On a string of 64
  characters that does not start with \<open>''0x''\<close>, \<^verbatim>\<open>bytes32ToHex\<close> undoes it.
\<close>

theorem hexToBytes32_roundtrip:
  "length (hexToBytes32 hex) = 66 \<and>
   take 2 (hexToBytes32 hex) = ''0x'' \<and>
   length (drop 2 (hexToBytes32 hex)) = 64 \<and>
   (let cleanHex = (if startsWith hex ''0x'' then drop 2 hex else hex)
    in hexToBytes32 hex =
         ''0x'' @ (if length cleanHex \<le> 64
                   then replicate (64 - length cleanHex) CHR ''0'' @ cleanHex
                   else take 64 cleanHex)) \<and>
   (length h = 64 \<and> \<not> startsWith h ''0x'' \<longrightarrow> bytes32ToHex (hexToBytes32 h) = h)"
  by (simp add: hexToBytes32_def bytes32ToHex_def padStart_def startsWith_def Let_def)

theorem hexToBytes32_roundtrip_witness:
  "length ''b94d27b9934d3e08a52e52d7da7dabfac484efe37a5380ee9088f7ace2efcde9'' = 64 \<and>
   \<not> startsWith ''b94d27b9934d3e08a52e52d7da7dabfac484efe37a5380ee9088f7ace2efcde9'' ''0x'' \<and>
   bytes32ToHex (hexToBytes32 ''b94d27b9934d3e08a52e52d7da7dabfac484efe37a5380ee9088f7ace2efcde9'') =
     ''b94d27b9934d3e08a52e52d7da7dabfac484efe37a5380ee9088f7ace2efcde9''"
proof -
  have l: "length ''b94d27b9934d3e08a52e52d7da7dabfac484efe37a5380ee9088f7ace2efcde9'' = 64"
    by simp
  have n: "\<not> startsWith ''b94d27b9934d3e08a52e52d7da7dabfac484efe37a5380ee9088f7ace2efcde9'' ''0x''"
    by (simp add: startsWith_def)
  from hexToBytes32_roundtrip[of "[]" "''b94d27b9934d3e08a52e52d7da7dabfac484efe37a5380ee9088f7ace2efcde9''"] l n
  show ?thesis by blast
qed

lemma startsWith_prefix: "startsWith s p \<longleftrightarrow> prefix p s"
proof
  assume "startsWith s p"
  then have "p = take (length p) s" by (simp add: startsWith_def)
  then show "prefix p s" by (metis take_is_prefix)
next
  assume "prefix p s"
  then obtain zs where "s = p @ zs" by (auto simp: prefix_def)
  then show "startsWith s p" by (simp add: startsWith_def)
qed

lemma includesStr_sublist: "includesStr s t \<longleftrightarrow> sublist t s"
  by (induction s) (auto simp: startsWith_prefix sublist_Cons_right)

lemma isWhiteSpace_code:
  "isWhiteSpace c \<longleftrightarrow> (of_char c :: nat) \<in> {9, 10, 11, 12, 13, 32, 160}"
proof -
  have e: "c = d \<longleftrightarrow> (of_char c :: nat) = of_char d" for d
    by (simp add: of_char_eq_iff)
  show ?thesis
    by (simp add: isWhiteSpace_def e[of "CHR 0x09"] e[of "CHR 0x0A"] e[of "CHR 0x0B"]
        e[of "CHR 0x0C"] e[of "CHR 0x0D"] e[of "CHR 0x20"] e[of "CHR 0xA0"])
qed

text \<open>No letter is white space, in either case, so \<^verbatim>\<open>trim\<close> and \<^verbatim>\<open>toLowerCase\<close> commute.\<close>

lemma isWhiteSpace_toLowerChar: "isWhiteSpace (toLowerChar c) = isWhiteSpace c"
proof (cases "(65 \<le> (of_char c :: nat) \<and> (of_char c :: nat) \<le> 90) \<or>
    (192 \<le> (of_char c :: nat) \<and> (of_char c :: nat) \<le> 222 \<and> (of_char c :: nat) \<noteq> 215)")
  case True
  then have low: "toLowerChar c = char_of (of_char c + 32 :: nat)"
    by (simp add: toLowerChar_def)
  from True have "(of_char c + 32 :: nat) < 256" by auto
  then have "(of_char (char_of (of_char c + 32 :: nat)) :: nat) = of_char c + 32"
    by (simp add: of_char_of)
  with True low show ?thesis by (auto simp: isWhiteSpace_code)
next
  case False
  show ?thesis by (simp only: toLowerChar_def Let_def False if_False)
qed

lemma trim_toLowerCase: "trim (toLowerCase s) = toLowerCase (trim s)"
proof -
  have comp: "isWhiteSpace \<circ> toLowerChar = isWhiteSpace"
    by (rule ext) (simp add: isWhiteSpace_toLowerChar)
  show ?thesis
    by (simp add: trim_def toLowerCase_def dropWhile_map rev_map comp)
qed

text \<open>
  A string that \<^verbatim>\<open>trim\<close> leaves as it is starts and ends with a character that is not
  white space, and \<^verbatim>\<open>split\<close> cuts it into words none of which is empty.
\<close>

lemma splitWhitespace_pieces:
  assumes "s \<noteq> [] \<longrightarrow> \<not> isWhiteSpace (last s)"
    and "inSpace \<longrightarrow> s \<noteq> []"
    and "\<not> inSpace \<longrightarrow> piece \<noteq> [] \<or> (s \<noteq> [] \<and> \<not> isWhiteSpace (hd s))"
  shows "[] \<notin> set (splitWhitespace inSpace piece s)"
  using assms
proof (induction s arbitrary: inSpace piece)
  case Nil
  then show ?case by auto
next
  case (Cons c s)
  show ?case
  proof (cases "isWhiteSpace c")
    case True
    with Cons.prems(1) have s: "s \<noteq> []" by (cases s) auto
    with Cons.prems(1) have l: "s \<noteq> [] \<longrightarrow> \<not> isWhiteSpace (last s)" by simp
    show ?thesis
    proof (cases inSpace)
      case True
      from Cons.IH[of True piece] l s have "[] \<notin> set (splitWhitespace True piece s)" by simp
      with True \<open>isWhiteSpace c\<close> show ?thesis by simp
    next
      case False
      with Cons.prems(3) \<open>isWhiteSpace c\<close> have p: "piece \<noteq> []" by simp
      from Cons.IH[of True "[]"] l s have "[] \<notin> set (splitWhitespace True [] s)" by simp
      with False p \<open>isWhiteSpace c\<close> show ?thesis by simp
    qed
  next
    case False
    from Cons.prems(1) have l: "s \<noteq> [] \<longrightarrow> \<not> isWhiteSpace (last s)" by auto
    from Cons.IH[of False "piece @ [c]"] l
    have "[] \<notin> set (splitWhitespace False (piece @ [c]) s)" by simp
    with False show ?thesis by simp
  qed
qed

lemma trimmed_ends:
  assumes "trim s = s" and "s \<noteq> []"
  shows "\<not> isWhiteSpace (hd s) \<and> \<not> isWhiteSpace (last s)"
proof -
  have len: "length (trim s) \<le> length (dropWhile isWhiteSpace s)"
    using length_dropWhile_le[of isWhiteSpace "rev (dropWhile isWhiteSpace s)"]
    by (simp add: trim_def)
  have h: "\<not> isWhiteSpace (hd s)"
  proof
    assume "isWhiteSpace (hd s)"
    with assms(2) have "length (dropWhile isWhiteSpace s) < length s"
      using length_dropWhile_le[of isWhiteSpace "tl s"] by (cases s) auto
    with len assms(1) show False by simp
  qed
  with assms(2) have d: "dropWhile isWhiteSpace s = s" by (cases s) auto
  have "\<not> isWhiteSpace (last s)"
  proof
    assume w: "isWhiteSpace (last s)"
    from assms(2) have "rev s = last s # rev (butlast s)"
      by (metis append_butlast_last_id rev.simps(2) rev_rev_ident rev_swap append_Cons append_Nil rev_append)
    with w have "length (dropWhile isWhiteSpace (rev s)) < length s"
      using length_dropWhile_le[of isWhiteSpace "rev (butlast s)"]
      by (metis dropWhile.simps(2) le_imp_less_Suc length_Cons length_rev)
    with assms(1) d show False by (simp add: trim_def) (metis length_rev less_irrefl)
  qed
  with h show ?thesis by simp
qed

lemma split_trimmed:
  assumes "trim s = s" and "s \<noteq> []"
  shows "[] \<notin> set (split s)"
  unfolding split_def
  using trimmed_ends[OF assms] assms(2) by (intro splitWhitespace_pieces) simp_all

text \<open>
  On a title without white space at its ends the score of the source is the score of the
  policy.
\<close>

lemma similarityOf_policy:
  assumes "trim headline = headline"
  shows "similarityOf (trim (toLowerCase query)) (toLowerCase headline) =
           policy_score query headline"
  using assms
  by (simp add: similarityOf_def policy_score_def trim_toLowerCase includesStr_sublist
      list_ex_iff Let_def disj_commute cong: filter_cong)

text \<open>The title words of the policy are words: none of them is empty.\<close>

lemma policy_title_words:
  assumes "trim headline = headline" and "headline \<noteq> []"
  shows "trim (toLowerCase headline) = toLowerCase headline \<and>
         [] \<notin> set (split (trim (toLowerCase headline)))"
proof -
  from assms(1) have t: "trim (toLowerCase headline) = toLowerCase headline"
    by (simp add: trim_toLowerCase)
  from assms(2) have "toLowerCase headline \<noteq> []" by (simp add: toLowerCase_def)
  with t split_trimmed[of "toLowerCase headline"] show ?thesis by simp
qed

lemma collectMatches_eq:
  assumes "\<forall>(reg, m) \<in> set cands.
             case m of None \<Rightarrow> True
             | Some meta \<Rightarrow>
                 (case metadata.title meta of
                    Undefined \<Rightarrow> True | Str t \<Rightarrow> trim t = t | Other \<Rightarrow> False)"
  shows "collectMatches (trim (toLowerCase query)) cands acc =
           Inr (acc @ filter (\<lambda>m. 50 \<le> SearchMatch.similarity m)
                        (List.map_filter (scored query) cands))"
  using assms
proof (induction cands arbitrary: acc)
  case Nil
  then show ?case by (simp add: List.map_filter_simps)
next
  case (Cons c cands)
  obtain reg m where c: "c = (reg, m)" by (cases c)
  from Cons.prems have rest:
    "\<forall>(reg, m) \<in> set cands.
       case m of None \<Rightarrow> True
       | Some meta \<Rightarrow>
           (case metadata.title meta of
              Undefined \<Rightarrow> True | Str t \<Rightarrow> trim t = t | Other \<Rightarrow> False)"
    by simp
  note IH = Cons.IH[OF rest]
  show ?case
  proof (cases m)
    case None
    with c IH show ?thesis by (simp add: List.map_filter_simps)
  next
    case (Some meta)
    with Cons.prems c have t:
      "case metadata.title meta of Undefined \<Rightarrow> True | Str t \<Rightarrow> trim t = t | Other \<Rightarrow> False"
      by simp
    show ?thesis
    proof (cases "metadata.title meta")
      case Undefined
      with c Some IH show ?thesis by (simp add: List.map_filter_simps)
    next
      case (Str t)
      with t have "trim t = t" by simp
      with c Some Str IH show ?thesis
        by (simp add: List.map_filter_simps similarityOf_policy Let_def)
    next
      case Other
      with t show ?thesis by simp
    qed
  qed
qed

lemma collectMatches_throws:
  assumes "(reg, Some meta) \<in> set cands" and "metadata.title meta = Other"
  shows "\<exists>e. collectMatches sl cands acc = Inl e"
  using assms
proof (induction cands arbitrary: acc)
  case Nil
  then show ?case by simp
next
  case (Cons c cands)
  obtain reg' m where c: "c = (reg', m)" by (cases c)
  show ?case
  proof (cases "c = (reg, Some meta)")
    case True
    with Cons.prems(2) show ?thesis by simp
  next
    case False
    with Cons.prems have "(reg, Some meta) \<in> set cands" by simp
    from Cons.IH[OF this Cons.prems(2)] have ih: "\<And>acc. \<exists>e. collectMatches sl cands acc = Inl e" .
    show ?thesis
    proof (cases m)
      case None
      with c ih show ?thesis by simp
    next
      case (Some meta')
      with c ih show ?thesis
        by (cases "metadata.title meta'") (simp_all add: Let_def)
    qed
  qed
qed

text \<open>Every match the loop adds has a score of at least 50.\<close>

lemma collectMatches_scores:
  assumes "collectMatches sl cands acc = Inr ms"
    and "\<forall>m \<in> set acc. 50 \<le> SearchMatch.similarity m"
  shows "\<forall>m \<in> set ms. 50 \<le> SearchMatch.similarity m"
  using assms
proof (induction cands arbitrary: acc)
  case Nil
  then show ?case by simp
next
  case (Cons c cands)
  obtain reg m where c: "c = (reg, m)" by (cases c)
  show ?case
  proof (cases m)
    case None
    with c Cons.prems Cons.IH[of acc] show ?thesis by simp
  next
    case (Some meta)
    show ?thesis
    proof (cases "metadata.title meta")
      case Undefined
      with c Some Cons.prems Cons.IH[of acc] show ?thesis by simp
    next
      case (Str t)
      show ?thesis
      proof (cases "t \<noteq> [] \<and> 50 \<le> similarityOf sl (toLowerCase t)")
        case True
        let ?new = "\<lparr>SearchMatch.title = t,
                     SearchMatch.source = orDefault (metadata.source meta) ''Unknown'',
                     SearchMatch.url = orDefault (metadata.url meta) [],
                     SearchMatch.publishedAt = orDefault (metadata.publishedAt meta) [],
                     SearchMatch.contentHash = registration.contentHash reg,
                     SearchMatch.ipfsMetadata = registration.ipfsMetadata reg,
                     SearchMatch.reliability = orDefault (metadata.reliability meta) ''verified'',
                     SearchMatch.similarity = similarityOf sl (toLowerCase t)\<rparr>"
        from True c Some Str Cons.prems(1)
        have "collectMatches sl cands (acc @ [?new]) = Inr ms" by (simp add: Let_def)
        moreover from True Cons.prems(2)
        have "\<forall>m \<in> set (acc @ [?new]). 50 \<le> SearchMatch.similarity m" by simp
        ultimately show ?thesis by (rule Cons.IH)
      next
        case False
        with c Some Str Cons.prems(1) have "collectMatches sl cands acc = Inr ms"
          by (auto simp: Let_def split: if_splits)
        from Cons.IH[OF this Cons.prems(2)] show ?thesis .
      qed
    next
      case Other
      with c Some Cons.prems(1) show ?thesis by simp
    qed
  qed
qed

lemma sort_key_Nil_iff: "sort_key f xs = [] \<longleftrightarrow> xs = []"
  by (metis length_sort length_0_conv)

lemma sorted_desc_sort_key:
  "sorted_wrt (\<lambda>a b. SearchMatch.similarity b \<le> SearchMatch.similarity a)
     (sort_key (\<lambda>m. - int (SearchMatch.similarity m)) ms)"
proof -
  have "sorted (map (\<lambda>m. - int (SearchMatch.similarity m))
      (sort_key (\<lambda>m. - int (SearchMatch.similarity m)) ms))"
    by (rule sorted_sort_key)
  then show ?thesis by (simp add: sorted_map)
qed

lemma searchVerifiedNews_candidates:
  "searchVerifiedNews w query =
     (case collectMatches (trim (toLowerCase query)) (candidates w) [] of
        Inl e \<Rightarrow> Inr \<lparr>search_result.found = False, search_result.matches = []\<rparr>
      | Inr ms \<Rightarrow> Inr \<lparr>search_result.found = (ms \<noteq> []),
                       search_result.matches = take 10 (sortBySimilarity ms)\<rparr>)"
  by (simp add: searchVerifiedNews_def searchVerifiedNews_try_def candidates_def Let_def
      sortBySimilarity_def sort_key_Nil_iff split: sum.splits)

text \<open>
  The search always returns, and what it returns holds scores of at least 50, in descending
  order, and at most 10 matches.
\<close>

lemma searchVerifiedNews_shape:
  "\<exists>r. searchVerifiedNews w query = Inr r \<and>
       (\<forall>m \<in> set (search_result.matches r). 50 \<le> SearchMatch.similarity m) \<and>
       sorted_wrt (\<lambda>a b. SearchMatch.similarity b \<le> SearchMatch.similarity a)
         (search_result.matches r) \<and>
       length (search_result.matches r) \<le> 10"
proof (cases "collectMatches (trim (toLowerCase query)) (candidates w) []")
  case (Inl e)
  then show ?thesis by (simp add: searchVerifiedNews_candidates)
next
  case (Inr ms)
  from collectMatches_scores[OF Inr] have all: "\<forall>m \<in> set ms. 50 \<le> SearchMatch.similarity m"
    by simp
  have "set (take 10 (sortBySimilarity ms)) \<subseteq> set ms"
    using set_take_subset[of 10 "sortBySimilarity ms"] by (simp add: sortBySimilarity_def)
  with all have "\<forall>m \<in> set (take 10 (sortBySimilarity ms)). 50 \<le> SearchMatch.similarity m"
    by blast
  moreover have "sorted_wrt (\<lambda>a b. SearchMatch.similarity b \<le> SearchMatch.similarity a)
      (take 10 (sortBySimilarity ms))"
    by (simp add: sortBySimilarity_def sorted_wrt_take sorted_desc_sort_key)
  ultimately show ?thesis using Inr by (simp add: searchVerifiedNews_candidates)
qed

lemma searchVerifiedNews_try_eq:
  assumes "\<forall>(reg, m) \<in> set (candidates w).
             case m of None \<Rightarrow> True
             | Some meta \<Rightarrow>
                 (case metadata.title meta of
                    Undefined \<Rightarrow> True | Str t \<Rightarrow> trim t = t | Other \<Rightarrow> False)"
  shows "searchVerifiedNews_try w query = Inr (search_policy w query)"
proof -
  from collectMatches_eq[OF assms, of query "[]"]
  have "collectMatches (trim (toLowerCase query)) (candidates w) [] = Inr (retained w query)"
    by (simp add: retained_def)
  then show ?thesis
    by (simp add: searchVerifiedNews_try_def search_policy_def sortBySimilarity_def
        candidates_def Let_def sort_key_Nil_iff)
qed

text \<open>
  \<^verbatim>\<open>Number\<close> keeps a timestamp in seconds as it is; from \<open>2 ^ 53\<close> on it rounds to the
  nearest double, a tie going to the even significand.
\<close>

lemma Number_examples:
  "Number 1700000000 = 1700000000 \<and>
   Number 9007199254740993 = 9007199254740992 \<and>
   Number 9007199254740995 = 9007199254740996"
  by (simp add: Number_def Let_def)

lemma Number_small: "x < 2 ^ 53 \<Longrightarrow> Number x = x"
  by (simp add: Number_def)

lemma parse_article:
  "parseEvent (article hash locator) =
     \<lparr>registration.contentHash = hash, registration.publisher = ''0xA11CE'',
      registration.timestamp = 1700000000, registration.contentType = ''article'',
      registration.ipfsMetadata = locator\<rparr>"
  by (simp add: parseEvent_def article_def Number_def)

lemma recent_world_of:
  "getRecentRegistrations (world_of events) 20 = take 20 (rev (map parseEvent events))"
  by (simp add: getRecentRegistrations_def world_of_def ledger_def)

lemma fetch_Hello:
  "fetchIPFSWithCache (world_of events) ''QmHello'' = Some (titled (Str ''Hello ''))"
  by (simp add: fetchIPFSWithCache_def world_of_def gateway_def)

lemma fetch_Find:
  "fetchIPFSWithCache (world_of events) ''QmFind'' = Some (titled (Str ''Scientists Find New Planet''))"
  by (simp add: fetchIPFSWithCache_def world_of_def gateway_def)

lemma fetch_Discover:
  "fetchIPFSWithCache (world_of events) ''QmDiscover'' =
     Some (titled (Str ''Scientists Discover New Planet''))"
  by (simp add: fetchIPFSWithCache_def world_of_def gateway_def)

lemma fetch_Number:
  "fetchIPFSWithCache (world_of events) ''QmNumber'' = Some (titled Other)"
  by (simp add: fetchIPFSWithCache_def world_of_def gateway_def)

lemma fetch_Words:
  "fetchIPFSWithCache (world_of events) ''QmWords'' = Some (titled (Str ''aaaa bbbb''))"
  by (simp add: fetchIPFSWithCache_def world_of_def gateway_def)

lemma candidates_hello:
  "candidates hello =
     [(parseEvent (article (hashOf CHR ''c'') ''QmHello''), Some (titled (Str ''Hello '')))]"
  by (simp add: candidates_def hello_def recent_world_of parse_article fetch_Hello)

lemma candidates_planets:
  "candidates planets =
     [(parseEvent (article (hashOf CHR ''b'') ''QmDiscover''),
       Some (titled (Str ''Scientists Discover New Planet''))),
      (parseEvent (article (hashOf CHR ''a'') ''QmFind''),
       Some (titled (Str ''Scientists Find New Planet'')))]"
  by (simp add: candidates_def planets_def recent_world_of parse_article fetch_Find fetch_Discover)

lemma candidates_malformed:
  "candidates malformed =
     [(parseEvent (article (hashOf CHR ''d'') ''QmNumber''), Some (titled Other)),
      (parseEvent (article (hashOf CHR ''a'') ''QmFind''),
       Some (titled (Str ''Scientists Find New Planet'')))]"
  by (simp add: candidates_def malformed_def recent_world_of parse_article fetch_Find fetch_Number)

lemma candidates_wordy:
  "candidates wordy =
     [(parseEvent (article (hashOf CHR ''f'') ''QmWords''), Some (titled (Str ''aaaa bbbb'')))]"
  by (simp add: candidates_def wordy_def recent_world_of parse_article fetch_Words)

lemma lower_Hello: "trim ''hello '' = ''hello'' \<and> toLowerCase ''Hello '' = ''hello ''"
  by code_simp

lemma score_Hello: "similarityOf ''hello'' ''hello '' = 80"
  by (simp add: similarityOf_def startsWith_def)

lemma lower_query: "trim (toLowerCase ''scientists find planet'') = ''scientists find planet''"
  by code_simp

lemma lower_Find: "toLowerCase ''Scientists Find New Planet'' = ''scientists find new planet''"
  by code_simp

lemma lower_Discover:
  "toLowerCase ''Scientists Discover New Planet'' = ''scientists discover new planet''"
  by code_simp

lemma split_query: "split ''scientists find planet'' = [''scientists'', ''find'', ''planet'']"
  by code_simp

lemma split_Find:
  "split ''scientists find new planet'' = [''scientists'', ''find'', ''new'', ''planet'']"
  by code_simp

lemma split_Discover:
  "split ''scientists discover new planet'' = [''scientists'', ''discover'', ''new'', ''planet'']"
  by code_simp

lemma three_of_three:
  "Math_round (times100 (divide_lengths (Suc (Suc (Suc 0))) (Suc (Suc (Suc 0))))) = 100"
proof -
  have "divide_lengths 3 3 = (4503599627370496, 52)"
    by (simp add: divide_lengths_def nearest_double_def Let_def)
  moreover have "times100 (4503599627370496, 52) = (7036874417766400, 46)"
    by (simp add: times100_def nearest_double_def Let_def)
  moreover have "Math_round (7036874417766400, 46) = 100"
    by (simp add: Math_round_def)
  ultimately have "Math_round (times100 (divide_lengths 3 3)) = 100" by simp
  then show ?thesis by (simp only: numeral_3_eq_3)
qed

lemma two_of_three:
  "Math_round (times100 (divide_lengths (Suc (Suc 0)) (Suc (Suc (Suc 0))))) = 67"
proof -
  have "divide_lengths 2 3 = (6004799503160661, 53)"
    by (simp add: divide_lengths_def nearest_double_def Let_def)
  moreover have "times100 (6004799503160661, 53) = (4691249611844266, 46)"
    by (simp add: times100_def nearest_double_def Let_def)
  moreover have "Math_round (4691249611844266, 46) = 67"
    by (simp add: Math_round_def)
  ultimately have "Math_round (times100 (divide_lengths 2 3)) = 67" by simp
  then show ?thesis by (simp only: numeral_2_eq_2 numeral_3_eq_3)
qed

text \<open>At the ends of the scale the score is exact: no word matched is 0, all matched is 100.\<close>

lemma none_matched: "Math_round (times100 (divide_lengths 0 n)) = 0"
  by (simp add: Math_round_def times100_def divide_lengths_def nearest_double_def)

lemma all_matched:
  assumes "0 < n"
  shows "Math_round (times100 (divide_lengths n n)) = 100"
proof -
  from assms have "divide_lengths n n = (4503599627370496, 52)"
    by (simp add: divide_lengths_def nearest_double_def Let_def)
  moreover have "times100 (4503599627370496, 52) = (7036874417766400, 46)"
    by (simp add: times100_def nearest_double_def Let_def)
  moreover have "Math_round (7036874417766400, 46) = 100"
    by (simp add: Math_round_def)
  ultimately show ?thesis by simp
qed

text \<open>
  The rounding is the one of doubles: 23 matched words of 40 give 57, where the exact
  quotient 57.5 would round to 58.
\<close>

lemma rounding_23_of_40:
  "Math_round (times100 (divide_lengths 23 40)) = 57 \<and>
   (2 * (100 * 23) + 40) div (2 * 40) = (58::nat)"
proof -
  have "divide_lengths 23 40 = (5179139571476070, 53)"
    by (simp add: divide_lengths_def nearest_double_def Let_def)
  moreover have "times100 (5179139571476070, 53) = (8092405580431359, 47)"
    by (simp add: times100_def nearest_double_def Let_def)
  moreover have "Math_round (8092405580431359, 47) = 57"
    by (simp add: Math_round_def)
  ultimately show ?thesis by simp
qed

lemma score_Find: "similarityOf ''scientists find planet'' ''scientists find new planet'' = 100"
  by (simp add: similarityOf_def split_query split_Find startsWith_def three_of_three)

lemma score_Discover:
  "similarityOf ''scientists find planet'' ''scientists discover new planet'' = 67"
  by (simp add: similarityOf_def split_query split_Discover startsWith_def two_of_three)

text \<open>
  The query of 40 words against the title \<open>''aaaa bbbb''\<close>: the strings differ, neither
  occurs in the other, all 40 words are longer than 3 characters and the 23 words
  \<open>''aaaa''\<close> are matched.
\<close>

lemma lower_fortyWords:
  "trim (toLowerCase fortyWords) = fortyWords \<and> toLowerCase ''aaaa bbbb'' = ''aaaa bbbb''"
  by code_simp

lemma words_fortyWords:
  "filter (\<lambda>w. 3 < length w) (split fortyWords) =
     replicate 23 ''aaaa'' @ replicate 17 ''zzzz'' \<and>
   split ''aaaa bbbb'' = [''aaaa'', ''bbbb'']"
  by code_simp

lemma matched_fortyWords:
  "filter (\<lambda>sw. list_ex (\<lambda>tw. includesStr tw sw \<or> includesStr sw tw) [''aaaa'', ''bbbb''])
     (replicate 23 ''aaaa'' @ replicate 17 ''zzzz'') = replicate 23 ''aaaa''"
  by code_simp

lemma apart_fortyWords:
  "''aaaa bbbb'' \<noteq> fortyWords \<and> \<not> includesStr ''aaaa bbbb'' fortyWords \<and>
   \<not> includesStr fortyWords ''aaaa bbbb''"
  by code_simp

lemma score_fortyWords: "similarityOf fortyWords ''aaaa bbbb'' = 57"
proof -
  have "similarityOf fortyWords ''aaaa bbbb'' =
      Math_round (times100 (divide_lengths (length (replicate 23 ''aaaa''))
        (length (replicate 23 ''aaaa'' @ replicate 17 ''zzzz''))))"
    unfolding similarityOf_def Let_def
    by (simp only: words_fortyWords matched_fortyWords apart_fortyWords if_False simp_thms)
       simp
  also have "\<dots> = Math_round (times100 (divide_lengths 23 40))" by simp
  finally show ?thesis by (simp only: rounding_23_of_40)
qed

text \<open>
  Outside the theorem below: a title that ends with a space is compared as it is, so the
  query \<open>''Hello ''\<close>, trimmed to \<open>''hello''\<close>, is found inside the title \<open>''hello ''\<close>.
\<close>

lemma hello_result:
  "searchVerifiedNews hello ''Hello '' =
     Inr \<lparr>search_result.found = True,
          search_result.matches =
            [\<lparr>SearchMatch.title = ''Hello '', SearchMatch.source = Str ''Reuters'',
              SearchMatch.url = Str [], SearchMatch.publishedAt = Str [],
              SearchMatch.contentHash = hashOf CHR ''c'', SearchMatch.ipfsMetadata = ''QmHello'',
              SearchMatch.reliability = Str ''verified'', SearchMatch.similarity = 80\<rparr>]\<rparr>"
  by (simp add: searchVerifiedNews_candidates candidates_hello titled_def lower_Hello score_Hello
      parse_article orDefault_def sortBySimilarity_def)

lemma planets_result:
  "searchVerifiedNews planets ''scientists find planet'' =
     Inr \<lparr>search_result.found = True,
          search_result.matches =
            [\<lparr>SearchMatch.title = ''Scientists Find New Planet'', SearchMatch.source = Str ''Reuters'',
              SearchMatch.url = Str [], SearchMatch.publishedAt = Str [],
              SearchMatch.contentHash = hashOf CHR ''a'', SearchMatch.ipfsMetadata = ''QmFind'',
              SearchMatch.reliability = Str ''verified'', SearchMatch.similarity = 100\<rparr>,
             \<lparr>SearchMatch.title = ''Scientists Discover New Planet'', SearchMatch.source = Str ''Reuters'',
              SearchMatch.url = Str [], SearchMatch.publishedAt = Str [],
              SearchMatch.contentHash = hashOf CHR ''b'', SearchMatch.ipfsMetadata = ''QmDiscover'',
              SearchMatch.reliability = Str ''verified'', SearchMatch.similarity = 67\<rparr>]\<rparr>"
  by (simp add: searchVerifiedNews_candidates candidates_planets titled_def lower_query lower_Find
      lower_Discover score_Find score_Discover parse_article orDefault_def sortBySimilarity_def)

lemma planets_trimmed:
  "trim ''Scientists Find New Planet'' = ''Scientists Find New Planet'' \<and>
   trim ''Scientists Discover New Planet'' = ''Scientists Discover New Planet''"
  by code_simp

text \<open>A title that is not a string makes the body of the search throw.\<close>

lemma malformed_throws:
  "searchVerifiedNews_try malformed ''scientists find planet'' =
     Inl (TypeError ''meta.title.toLowerCase is not a function'')"
  by (simp add: searchVerifiedNews_try_def candidates_malformed[unfolded candidates_def] titled_def
      Let_def)

text \<open>
  Claim C7, as amended. When every candidate that has a title has a string for it, without
  white space at its ends, the search answers as \<open>search_policy\<close> says: each candidate
  with a title that is not empty is scored by \<open>policy_score\<close> (the query and the title in
  lower case and trimmed: 100 when equal, else 80 when one occurs in the other, else the
  percentage of the query words longer than 3 characters that occur in, or contain, a word
  of the title, computed and rounded in double precision as
  \<^verbatim>\<open>Math.round((matched / total) * 100)\<close>, and 0 without such a word); the candidates
  scoring at least 50 are kept, sorted by a stable sort with the highest score first, and
  the first 10 are returned. For every query and every world the search returns, and its
  answer holds scores of at least 50, in descending order, and at most 10 matches.
\<close>

theorem search_follows_policy:
  "((\<forall>(reg, m) \<in> set (candidates w).
       case m of None \<Rightarrow> True
       | Some meta \<Rightarrow>
           (case metadata.title meta of
              Undefined \<Rightarrow> True | Str t \<Rightarrow> trim t = t | Other \<Rightarrow> False)) \<longrightarrow>
      searchVerifiedNews w query = Inr (search_policy w query)) \<and>
   (\<exists>r. searchVerifiedNews w query = Inr r \<and>
      (\<forall>m \<in> set (search_result.matches r). 50 \<le> SearchMatch.similarity m) \<and>
      sorted_wrt (\<lambda>a b. SearchMatch.similarity b \<le> SearchMatch.similarity a)
        (search_result.matches r) \<and>
      length (search_result.matches r) \<le> 10)"
proof -
  have "searchVerifiedNews w query = Inr (search_policy w query)"
    if "\<forall>(reg, m) \<in> set (candidates w).
          case m of None \<Rightarrow> True
          | Some meta \<Rightarrow>
              (case metadata.title meta of
                 Undefined \<Rightarrow> True | Str t \<Rightarrow> trim t = t | Other \<Rightarrow> False)"
    using searchVerifiedNews_try_eq[OF that, of query] by (simp add: searchVerifiedNews_def)
  with searchVerifiedNews_shape[of w query] show ?thesis by blast
qed

theorem search_follows_policy_witness:
  "candidates planets =
     [(parseEvent (article (hashOf CHR ''b'') ''QmDiscover''),
       Some (titled (Str ''Scientists Discover New Planet''))),
      (parseEvent (article (hashOf CHR ''a'') ''QmFind''),
       Some (titled (Str ''Scientists Find New Planet'')))] \<and>
   trim ''Scientists Find New Planet'' = ''Scientists Find New Planet'' \<and>
   trim ''Scientists Discover New Planet'' = ''Scientists Discover New Planet'' \<and>
   search_policy planets ''scientists find planet'' =
     \<lparr>search_result.found = True,
      search_result.matches =
        [\<lparr>SearchMatch.title = ''Scientists Find New Planet'', SearchMatch.source = Str ''Reuters'',
          SearchMatch.url = Str [], SearchMatch.publishedAt = Str [],
          SearchMatch.contentHash = hashOf CHR ''a'', SearchMatch.ipfsMetadata = ''QmFind'',
          SearchMatch.reliability = Str ''verified'', SearchMatch.similarity = 100\<rparr>,
         \<lparr>SearchMatch.title = ''Scientists Discover New Planet'', SearchMatch.source = Str ''Reuters'',
          SearchMatch.url = Str [], SearchMatch.publishedAt = Str [],
          SearchMatch.contentHash = hashOf CHR ''b'', SearchMatch.ipfsMetadata = ''QmDiscover'',
          SearchMatch.reliability = Str ''verified'', SearchMatch.similarity = 67\<rparr>]\<rparr>"
proof -
  have clean: "\<forall>(reg, m) \<in> set (candidates planets).
       case m of None \<Rightarrow> True
       | Some meta \<Rightarrow>
           (case metadata.title meta of
              Undefined \<Rightarrow> True | Str t \<Rightarrow> trim t = t | Other \<Rightarrow> False)"
    by (simp add: candidates_planets titled_def planets_trimmed)
  from search_follows_policy[of planets "''scientists find planet''"] clean
  have "searchVerifiedNews planets ''scientists find planet'' =
      Inr (search_policy planets ''scientists find planet'')"
    by blast
  with planets_result candidates_planets planets_trimmed show ?thesis by simp
qed

text \<open>
  Claim C7 as stated fails on the rounding. The query \<open>fortyWords\<close> has 40 words longer
  than 3 characters, 23 of them matched by the title \<open>''aaaa bbbb''\<close>. The rounded
  percentage of 23 in 40 is 58 (57.5 rounds up); the search returns 57, because the double
  nearest to 23 / 40 times 100 is the double just below 57.5.
\<close>

theorem search_follows_policy_counterexample:
  "searchVerifiedNews wordy fortyWords =
     Inr \<lparr>search_result.found = True,
          search_result.matches =
            [\<lparr>SearchMatch.title = ''aaaa bbbb'', SearchMatch.source = Str ''Reuters'',
              SearchMatch.url = Str [], SearchMatch.publishedAt = Str [],
              SearchMatch.contentHash = hashOf CHR ''f'', SearchMatch.ipfsMetadata = ''QmWords'',
              SearchMatch.reliability = Str ''verified'', SearchMatch.similarity = 57\<rparr>]\<rparr> \<and>
   length (filter (\<lambda>w. 3 < length w) (split (trim (toLowerCase fortyWords)))) = 40 \<and>
   length (filter (\<lambda>sw. list_ex (\<lambda>tw. includesStr tw sw \<or> includesStr sw tw)
                           (split (toLowerCase ''aaaa bbbb'')))
             (filter (\<lambda>w. 3 < length w) (split (trim (toLowerCase fortyWords))))) = 23 \<and>
   rounded_percentage 23 40 = 58"
proof -
  have "searchVerifiedNews wordy fortyWords =
     Inr \<lparr>search_result.found = True,
          search_result.matches =
            [\<lparr>SearchMatch.title = ''aaaa bbbb'', SearchMatch.source = Str ''Reuters'',
              SearchMatch.url = Str [], SearchMatch.publishedAt = Str [],
              SearchMatch.contentHash = hashOf CHR ''f'', SearchMatch.ipfsMetadata = ''QmWords'',
              SearchMatch.reliability = Str ''verified'', SearchMatch.similarity = 57\<rparr>]\<rparr>"
    by (simp add: searchVerifiedNews_candidates candidates_wordy titled_def lower_fortyWords
        score_fortyWords parse_article orDefault_def sortBySimilarity_def)
  moreover have "length (filter (\<lambda>w. 3 < length w) (split (trim (toLowerCase fortyWords)))) = 40"
    by (simp only: lower_fortyWords words_fortyWords) simp
  moreover have "length (filter (\<lambda>sw. list_ex (\<lambda>tw. includesStr tw sw \<or> includesStr sw tw)
                           (split (toLowerCase ''aaaa bbbb'')))
             (filter (\<lambda>w. 3 < length w) (split (trim (toLowerCase fortyWords))))) = 23"
    by (simp only: lower_fortyWords words_fortyWords matched_fortyWords) simp
  moreover have "rounded_percentage 23 40 = 58"
    by (simp add: rounded_percentage_def)
  ultimately show ?thesis by (intro conjI)
qed

lemma publisherContent_loop_result:
  assumes "\<forall>i. index \<le> i \<and> i < k \<longrightarrow> answers (call i)"
    and "index \<le> k" and "\<not> answers (call k)"
  shows "publisherContent_loop call index hashes =
           Some (hashes @ map (\<lambda>i. projr (call i)) [index..<k])"
  using assms
proof (induction "k - index" arbitrary: index hashes)
  case 0
  then have "index = k" by simp
  with "0.prems"(3) show ?case
    by (subst publisherContent_loop.simps) (auto simp: answers_def split: sum.splits)
next
  case (Suc n)
  then have lt: "index < k" by simp
  with Suc.prems(1) have a: "answers (call index)" by simp
  then obtain hash where h: "call index = Inr hash" "hash \<noteq> []" "hash \<noteq> zeroHash"
    by (auto simp: answers_def split: sum.splits)
  have "publisherContent_loop call (index + 1) (hashes @ [hash]) =
      Some ((hashes @ [hash]) @ map (\<lambda>i. projr (call i)) [index + 1..<k])"
    by (rule Suc.hyps(1)) (use Suc.hyps(2) Suc.prems lt in auto)
  moreover have "[index..<k] = index # [index + 1..<k]"
    using lt by (simp add: upt_conv_Cons)
  ultimately show ?case
    by (subst publisherContent_loop.simps) (simp add: h)
qed

text \<open>
  A lookup that returns has met a call that does not answer; against a contract that
  answers every index the loop runs forever.
\<close>

lemma publisherContent_loop_ends:
  assumes "publisherContent_loop call index hashes = Some result"
  shows "\<exists>k\<ge>index. \<not> answers (call k)"
proof (rule publisherContent_loop.raw_induct[OF _ assms])
  fix loop :: "(nat \<Rightarrow> exn + string) \<Rightarrow> nat \<Rightarrow> string list \<Rightarrow> string list option"
    and call index hashes result
  assume IH: "\<And>call index hashes result.
    loop call index hashes = Some result \<Longrightarrow> \<exists>k\<ge>index. \<not> answers (call k)"
  assume eq: "(case call index of
        Inl e \<Rightarrow> Some hashes
      | Inr hash \<Rightarrow>
          if hash \<noteq> [] \<and> hash \<noteq> zeroHash
          then loop call (index + 1) (hashes @ [hash])
          else Some hashes) = Some result"
  show "\<exists>k\<ge>index. \<not> answers (call k)"
  proof (cases "answers (call index)")
    case True
    then obtain hash where h: "call index = Inr hash" "hash \<noteq> []" "hash \<noteq> zeroHash"
      by (auto simp: answers_def split: sum.splits)
    from eq have "loop call (index + 1) (hashes @ [hash]) = Some result"
      by (simp add: h)
    from IH[OF this] obtain k where "index + 1 \<le> k" "\<not> answers (call k)" by blast
    then show ?thesis by (intro exI[of _ k]) simp
  next
    case False
    then show ?thesis by blast
  qed
qed

lemma publisherContent_loop_diverges:
  assumes "\<forall>k. answers (call k)"
  shows "publisherContent_loop call index hashes = None"
proof (cases "publisherContent_loop call index hashes")
  case None
  then show ?thesis .
next
  case (Some result)
  from publisherContent_loop_ends[OF this] assms show ?thesis by blast
qed

text \<open>
  Claim C9, as amended. \<^verbatim>\<open>searchVerifiedNews\<close> always returns: when its \<^verbatim>\<open>try\<close> block
  throws, and when no registration can be read, it returns \<open>found = False\<close> with no match.
  \<^verbatim>\<open>getPublisherContent\<close> of the client never throws; without a contract it returns the
  empty list; when the calls for the indices below \<open>k\<close> answer and the call for \<open>k\<close>
  fails or returns an empty or zero hash, it returns the \<open>k\<close> hashes read before, which
  is the empty list only for \<open>k = 0\<close>.
\<close>

theorem reads_degrade:
  "(\<exists>r. searchVerifiedNews w query = Inr r) \<and>
   ((\<exists>e. searchVerifiedNews_try w query = Inl e) \<longrightarrow>
      searchVerifiedNews w query = Inr \<lparr>search_result.found = False, search_result.matches = []\<rparr>) \<and>
   (getRecentRegistrations w 20 = [] \<longrightarrow>
      searchVerifiedNews w query = Inr \<lparr>search_result.found = False, search_result.matches = []\<rparr>) \<and>
   (\<forall>e. getPublisherContent_client w p \<noteq> Some (Inl e)) \<and>
   (getContract w = None \<longrightarrow> getPublisherContent_client w p = Some (Inr [])) \<and>
   (\<forall>c k. getContract w = Some c \<and>
      (\<forall>i<k. answers (publisherContent_at c p i)) \<and> \<not> answers (publisherContent_at c p k) \<longrightarrow>
      getPublisherContent_client w p =
        Some (Inr (map (\<lambda>i. projr (publisherContent_at c p i)) [0..<k])))"
proof -
  have a: "\<exists>r. searchVerifiedNews w query = Inr r"
    by (simp add: searchVerifiedNews_def split: sum.splits)
  have b: "searchVerifiedNews w query = Inr \<lparr>search_result.found = False, search_result.matches = []\<rparr>"
    if "\<exists>e. searchVerifiedNews_try w query = Inl e"
    using that by (auto simp: searchVerifiedNews_def)
  have c: "searchVerifiedNews w query = Inr \<lparr>search_result.found = False, search_result.matches = []\<rparr>"
    if "getRecentRegistrations w 20 = []"
    using that
    by (simp add: searchVerifiedNews_def searchVerifiedNews_try_def sortBySimilarity_def Let_def)
  have d: "getPublisherContent_client w p \<noteq> Some (Inl e)" for e
    by (auto simp: getPublisherContent_client_def split: option.splits)
  have e: "getPublisherContent_client w p = Some (Inr [])" if "getContract w = None"
    using that by (simp add: getPublisherContent_client_def)
  have f: "getPublisherContent_client w p =
        Some (Inr (map (\<lambda>i. projr (publisherContent_at c p i)) [0..<k]))"
    if "getContract w = Some c" "\<forall>i<k. answers (publisherContent_at c p i)"
      "\<not> answers (publisherContent_at c p k)" for c k
    using that publisherContent_loop_result[of 0 k "publisherContent_at c p" "[]"]
    by (simp add: getPublisherContent_client_def)
  from a b c d e f show ?thesis by blast
qed

lemma text_empty:
  "trim (searchQuery st) = [] \<Longrightarrow> handleSearch_text w sv st = (st, [Toast toast_error])"
  by (simp add: handleSearch_text_def)

lemma text_throws:
  assumes "trim (searchQuery st) \<noteq> []"
    and "verifyContent_client w (hexToBytes32 (generateContentHash sv (trim (searchQuery st)))) = Inl e"
  shows "snd (handleSearch_text w sv st) =
     [Call_verifyContent (hexToBytes32 (generateContentHash sv (trim (searchQuery st)))),
      Toast toast_error]"
  using assms by (simp add: handleSearch_text_def Let_def)

lemma text_hit:
  assumes "trim (searchQuery st) \<noteq> []"
    and "verifyContent_client w (hexToBytes32 (generateContentHash sv (trim (searchQuery st)))) = Inr r"
    and "verification_result.exists r"
  shows "(\<forall>q. Call_searchVerifiedNews q \<notin> set (snd (handleSearch_text w sv st))) \<and>
     searchResults (fst (handleSearch_text w sv st)) = None \<and>
     exactBlockchainMatch (fst (handleSearch_text w sv st)) =
       Some (asMatch (hexToBytes32 (generateContentHash sv (trim (searchQuery st)))) r)"
proof (cases "analyzeNewsContent sv (searchQuery st)")
  case (Inl e)
  with assms show ?thesis by (simp add: handleSearch_text_def Let_def)
next
  case (Inr ai)
  with assms show ?thesis by (simp add: handleSearch_text_def Let_def)
qed

lemma text_head:
  assumes "trim (searchQuery st) \<noteq> []"
  shows "\<exists>post. snd (handleSearch_text w sv st) =
     Call_verifyContent (hexToBytes32 (generateContentHash sv (trim (searchQuery st)))) # post"
proof -
  let ?h = "hexToBytes32 (generateContentHash sv (trim (searchQuery st)))"
  show ?thesis
  proof (cases "verifyContent_client w ?h")
    case (Inl e)
    with assms show ?thesis by (simp add: handleSearch_text_def Let_def)
  next
    case v: (Inr r)
    show ?thesis
    proof (cases "verification_result.exists r")
      case True
      with assms v show ?thesis
        by (cases "analyzeNewsContent sv (searchQuery st)")
           (simp_all add: handleSearch_text_def Let_def)
    next
      case False
      with assms v show ?thesis
        by (cases "searchVerifiedNews w (searchQuery st)";
            cases "analyzeNewsContent sv (searchQuery st)")
           (simp_all add: handleSearch_text_def Let_def)
    qed
  qed
qed

lemma image_throws_hash:
  assumes "generateFileHash sv img = Inl e"
  shows "snd (handleSearch_image w sv img st) =
     [Toast toast_info, Call_generateFileHash img, Toast toast_error]"
  using assms by (simp add: handleSearch_image_def Let_def)

lemma image_throws_verify:
  assumes "generateFileHash sv img = Inr imageHash"
    and "verifyContent_client w (hexToBytes32 imageHash) = Inl e"
  shows "snd (handleSearch_image w sv img st) =
     [Toast toast_info, Call_generateFileHash img, Call_verifyContent (hexToBytes32 imageHash),
      Toast toast_error]"
  using assms by (simp add: handleSearch_image_def Let_def)

lemma image_hit:
  assumes "generateFileHash sv img = Inr imageHash"
    and "verifyContent_client w (hexToBytes32 imageHash) = Inr r"
    and "verification_result.exists r"
  shows "(\<forall>q. Call_searchVerifiedNews q \<notin> set (snd (handleSearch_image w sv img st))) \<and>
     searchResults (fst (handleSearch_image w sv img st)) = None \<and>
     imageBlockchainMatch (fst (handleSearch_image w sv img st)) =
       Some (asMatch (hexToBytes32 imageHash) r)"
  using assms by (simp add: handleSearch_image_def Let_def)

lemma image_head:
  assumes "generateFileHash sv img = Inr imageHash"
  shows "\<exists>post. snd (handleSearch_image w sv img st) =
     [Toast toast_info, Call_generateFileHash img] @
     Call_verifyContent (hexToBytes32 imageHash) # post"
proof (cases "verifyContent_client w (hexToBytes32 imageHash)")
  case (Inl e)
  with assms show ?thesis by (simp add: handleSearch_image_def Let_def)
next
  case v: (Inr r)
  show ?thesis
  proof (cases "verification_result.exists r")
    case True
    with assms v show ?thesis by (simp add: handleSearch_image_def Let_def)
  next
    case False
    show ?thesis
    proof (cases "analyzeNewsImage sv img")
      case (Inl e)
      with assms v False show ?thesis by (simp add: handleSearch_image_def Let_def)
    next
      case a: (Inr result)
      with assms v False show ?thesis
        by (cases "searchVerifiedNews w (newsContent result)")
           (simp_all add: handleSearch_image_def Let_def)
    qed
  qed
qed


lemma handleSearch_image_mode:
  assumes "verificationMode st = image_mode" and "selectedImage st = Some img"
  shows "handleSearch w sv st = handleSearch_image w sv img st"
    and "lookedUp sv st = Some (map_sum id hexToBytes32 (generateFileHash sv img))"
  using assms by (simp_all add: handleSearch_def lookedUp_def)

lemma handleSearch_text_mode:
  assumes "\<not> (verificationMode st = image_mode \<and> selectedImage st \<noteq> None)"
  shows "handleSearch w sv st = handleSearch_text w sv st"
    and "lookedUp sv st =
      (if trim (searchQuery st) = [] then None
       else Some (Inr (hexToBytes32 (generateContentHash sv (trim (searchQuery st))))))"
  using assms by (auto simp: handleSearch_def lookedUp_def split: mode.splits option.splits)

lemma handleSearch_hit:
  assumes "lookedUp sv st = Some (Inr h)" and "verifyContent_client w h = Inr r"
    and "verification_result.exists r"
  shows "(\<forall>q. Call_searchVerifiedNews q \<notin> set (snd (handleSearch w sv st))) \<and>
         searchResults (fst (handleSearch w sv st)) = None \<and>
         (exactBlockchainMatch (fst (handleSearch w sv st)) = Some (asMatch h r) \<or>
          imageBlockchainMatch (fst (handleSearch w sv st)) = Some (asMatch h r))"
proof (cases "verificationMode st = image_mode \<and> selectedImage st \<noteq> None")
  case True
  then obtain img where f: "verificationMode st = image_mode" "selectedImage st = Some img"
    by auto
  note m = handleSearch_image_mode[OF f]
  from assms(1) m(2) obtain imageHash where
    gh: "generateFileHash sv img = Inr imageHash" and h: "h = hexToBytes32 imageHash"
    by (cases "generateFileHash sv img") auto
  from image_hit[OF gh assms(2)[unfolded h] assms(3)] show ?thesis
    by (simp add: m(1) h)
next
  case False
  note m = handleSearch_text_mode[OF False]
  from assms(1) m(2) have ne: "trim (searchQuery st) \<noteq> []"
    and h: "h = hexToBytes32 (generateContentHash sv (trim (searchQuery st)))"
    by (auto split: if_splits)
  from text_hit[OF ne assms(2)[unfolded h] assms(3)] show ?thesis
    by (simp add: m(1) h)
qed

lemma handleSearch_search:
  assumes "Call_searchVerifiedNews q \<in> set (snd (handleSearch w sv st))"
  shows "\<exists>h r pre post. lookedUp sv st = Some (Inr h) \<and> verifyContent_client w h = Inr r \<and>
           \<not> verification_result.exists r \<and>
           snd (handleSearch w sv st) = pre @ Call_verifyContent h # post \<and>
           Call_searchVerifiedNews q \<in> set post \<and> (\<forall>q'. Call_searchVerifiedNews q' \<notin> set pre)"
proof (cases "verificationMode st = image_mode \<and> selectedImage st \<noteq> None")
  case True
  then obtain img where f: "verificationMode st = image_mode" "selectedImage st = Some img"
    by auto
  note m = handleSearch_image_mode[OF f]
  from assms have tr: "Call_searchVerifiedNews q \<in> set (snd (handleSearch_image w sv img st))"
    by (simp add: m(1))
  then obtain imageHash where gh: "generateFileHash sv img = Inr imageHash"
    by (cases "generateFileHash sv img") (auto simp: image_throws_hash)
  let ?h = "hexToBytes32 imageHash"
  from tr gh obtain r where v: "verifyContent_client w ?h = Inr r"
    by (cases "verifyContent_client w ?h") (auto simp: image_throws_verify)
  from tr image_hit[OF gh v] have miss: "\<not> verification_result.exists r" by blast
  from image_head[OF gh] obtain post where
    p: "snd (handleSearch_image w sv img st) =
          [Toast toast_info, Call_generateFileHash img] @ Call_verifyContent ?h # post"
    by blast
  with tr have "Call_searchVerifiedNews q \<in> set post" by auto
  moreover from gh have "lookedUp sv st = Some (Inr ?h)" by (simp add: m(2))
  moreover have "\<forall>q'. Call_searchVerifiedNews q' \<notin> set [Toast toast_info, Call_generateFileHash img]"
    by simp
  ultimately show ?thesis using v miss p unfolding m(1) by blast
next
  case False
  note m = handleSearch_text_mode[OF False]
  from assms have tr: "Call_searchVerifiedNews q \<in> set (snd (handleSearch_text w sv st))"
    by (simp add: m(1))
  then have ne: "trim (searchQuery st) \<noteq> []"
    by (auto simp: text_empty)
  let ?h = "hexToBytes32 (generateContentHash sv (trim (searchQuery st)))"
  from tr ne obtain r where v: "verifyContent_client w ?h = Inr r"
    by (cases "verifyContent_client w ?h") (auto simp: text_throws)
  from tr text_hit[OF ne v] have miss: "\<not> verification_result.exists r" by blast
  from text_head[OF ne] obtain post where
    p: "snd (handleSearch_text w sv st) = [] @ Call_verifyContent ?h # post"
    by auto
  with tr have "Call_searchVerifiedNews q \<in> set post" by auto
  moreover from ne have "lookedUp sv st = Some (Inr ?h)" by (simp add: m(2))
  moreover have "\<forall>q'. Call_searchVerifiedNews q' \<notin> set []" by simp
  ultimately show ?thesis using v miss p unfolding m(1) by blast
qed

text \<open>
  Claim C8. In a run of \<^verbatim>\<open>handleSearch\<close>, a call of \<^verbatim>\<open>searchVerifiedNews\<close> occurs only
  after the call of \<^verbatim>\<open>verifyContent\<close> for the fingerprint of the input, and only when that
  call returned \<open>exists = False\<close>. When it returned \<open>exists = True\<close>, the run calls no
  search, leaves \<^verbatim>\<open>searchResults\<close> empty and shows the exact match.
\<close>

theorem exact_hit_short_circuits:
  assumes "handleSearch w sv st = (st', tr)"
  shows "(\<forall>q. Call_searchVerifiedNews q \<in> set tr \<longrightarrow>
            (\<exists>h r pre post. lookedUp sv st = Some (Inr h) \<and> verifyContent_client w h = Inr r \<and>
               \<not> verification_result.exists r \<and> tr = pre @ Call_verifyContent h # post \<and>
               Call_searchVerifiedNews q \<in> set post \<and>
               (\<forall>q'. Call_searchVerifiedNews q' \<notin> set pre))) \<and>
         (\<forall>h r. lookedUp sv st = Some (Inr h) \<and> verifyContent_client w h = Inr r \<and>
            verification_result.exists r \<longrightarrow>
            (\<forall>q. Call_searchVerifiedNews q \<notin> set tr) \<and> searchResults st' = None \<and>
            (exactBlockchainMatch st' = Some (asMatch h r) \<or>
             imageBlockchainMatch st' = Some (asMatch h r)))"
proof -
  from assms have st': "st' = fst (handleSearch w sv st)" and tr: "tr = snd (handleSearch w sv st)"
    by simp_all
  show ?thesis
    unfolding st' tr using handleSearch_search[of _ w sv st] handleSearch_hit[of sv st _ w]
    by blast
qed

lemma hashes_answer:
  "hashOf CHR ''a'' \<noteq> [] \<and> hashOf CHR ''a'' \<noteq> zeroHash \<and>
   hashOf CHR ''b'' \<noteq> [] \<and> hashOf CHR ''b'' \<noteq> zeroHash"
  by code_simp

lemma planets_contract:
  "getContract planets =
     Some (ledger [article (hashOf CHR ''a'') ''QmFind'', article (hashOf CHR ''b'') ''QmDiscover''])"
  by (simp add: planets_def world_of_def)

lemma ledger_getter:
  "publisherContent_at (ledger events) ''0xA11CE'' 0 = Inr (hashOf CHR ''a'')"
  "publisherContent_at (ledger events) ''0xA11CE'' (Suc 0) = Inr (hashOf CHR ''b'')"
  "publisherContent_at (ledger events) ''0xA11CE'' 2 = Inl (Error ''call revert exception'')"
  by (simp_all add: ledger_def)

lemma ledger_answers:
  "answers (publisherContent_at (ledger events) ''0xA11CE'' 0)"
  "answers (publisherContent_at (ledger events) ''0xA11CE'' (Suc 0))"
  "\<not> answers (publisherContent_at (ledger events) ''0xA11CE'' 2)"
  by (simp_all add: ledger_getter answers_def hashes_answer)

lemma offline_facts: "getContract offline = None" "getRecentRegistrations offline 20 = []"
  by (simp_all add: offline_def getRecentRegistrations_def)

theorem reads_degrade_witness:
  "(\<exists>e. searchVerifiedNews_try malformed ''scientists find planet'' = Inl e) \<and>
   searchVerifiedNews malformed ''scientists find planet'' =
     Inr \<lparr>search_result.found = False, search_result.matches = []\<rparr> \<and>
   getRecentRegistrations offline 20 = [] \<and>
   searchVerifiedNews offline ''scientists find planet'' =
     Inr \<lparr>search_result.found = False, search_result.matches = []\<rparr> \<and>
   getContract offline = None \<and>
   getPublisherContent_client offline ''0xA11CE'' = Some (Inr []) \<and>
   getContract planets =
     Some (ledger [article (hashOf CHR ''a'') ''QmFind'', article (hashOf CHR ''b'') ''QmDiscover'']) \<and>
   getPublisherContent_client planets ''0xA11CE'' =
     Some (Inr [hashOf CHR ''a'', hashOf CHR ''b''])"
proof -
  have t: "\<exists>e. searchVerifiedNews_try malformed ''scientists find planet'' = Inl e"
    using malformed_throws by blast
  note m = reads_degrade[of malformed "''scientists find planet''" "''0xA11CE''"]
  note off = reads_degrade[of offline "''scientists find planet''" "''0xA11CE''"]
  note pl = reads_degrade[of planets "''scientists find planet''" "''0xA11CE''"]
  have two: "\<forall>i<2. answers (publisherContent_at
      (ledger [article (hashOf CHR ''a'') ''QmFind'', article (hashOf CHR ''b'') ''QmDiscover''])
      ''0xA11CE'' i)"
    using ledger_answers(1,2) by (auto simp: less_Suc_eq numeral_2_eq_2)
  from pl planets_contract two ledger_answers(3)
  have "getPublisherContent_client planets ''0xA11CE'' =
      Some (Inr (map (\<lambda>i. projr (publisherContent_at
        (ledger [article (hashOf CHR ''a'') ''QmFind'', article (hashOf CHR ''b'') ''QmDiscover''])
        ''0xA11CE'' i)) [0..<2]))"
    by blast
  then have p: "getPublisherContent_client planets ''0xA11CE'' =
      Some (Inr [hashOf CHR ''a'', hashOf CHR ''b''])"
    by (simp add: upt_conv_Cons ledger_getter numeral_2_eq_2)
  from m t off offline_facts p planets_contract show ?thesis by blast
qed

text \<open>
  Claim C9 as stated fails for the lookup: the call for index 2 fails, and the lookup
  returns the two hashes read before it, not the empty list.
\<close>

theorem reads_degrade_counterexample:
  "publisherContent_at
     (ledger [article (hashOf CHR ''a'') ''QmFind'', article (hashOf CHR ''b'') ''QmDiscover''])
     ''0xA11CE'' 2 = Inl (Error ''call revert exception'') \<and>
   getPublisherContent_client planets ''0xA11CE'' =
     Some (Inr [hashOf CHR ''a'', hashOf CHR ''b''])"
proof -
  have "publisherContent_loop (publisherContent_at
      (ledger [article (hashOf CHR ''a'') ''QmFind'', article (hashOf CHR ''b'') ''QmDiscover''])
      ''0xA11CE'') 0 [] =
    Some ([] @ map (\<lambda>i. projr (publisherContent_at
      (ledger [article (hashOf CHR ''a'') ''QmFind'', article (hashOf CHR ''b'') ''QmDiscover''])
      ''0xA11CE'' i)) [0..<2])"
    by (rule publisherContent_loop_result)
       (use ledger_answers in \<open>auto simp: less_Suc_eq numeral_2_eq_2\<close>)
  then have "getPublisherContent_client planets ''0xA11CE'' =
      Some (Inr [hashOf CHR ''a'', hashOf CHR ''b''])"
    by (simp add: getPublisherContent_client_def planets_contract upt_conv_Cons ledger_getter
        numeral_2_eq_2)
  with ledger_getter(3) show ?thesis by (rule conjI)
qed

lemma known_hash:
  "trim ''known text'' = ''known text'' \<and>
   trim ''scientists find planet'' = ''scientists find planet'' \<and>
   hexToBytes32 (replicate 64 CHR ''a'') = hashOf CHR ''a'' \<and>
   hexToBytes32 (replicate 64 CHR ''e'') = hashOf CHR ''e'' \<and>
   hashOf CHR ''e'' \<noteq> hashOf CHR ''a''"
  by code_simp

lemma verify_known:
  "verifyContent_client planets (hashOf CHR ''a'') =
     Inr \<lparr>verification_result.exists = True, verification_result.publisher = ''0xA11CE'',
          verification_result.timestamp = 1700000000,
          verification_result.contentType = ''article'',
          verification_result.ipfsMetadata = ''QmFind''\<rparr>"
  by (simp add: verifyContent_client_def planets_contract ledger_def Number_def)

lemma verify_unknown: "verifyContent_client planets (hashOf CHR ''e'') = Inr notFound"
  by (simp add: verifyContent_client_def planets_contract ledger_def known_hash)

lemma trace_known:
  "snd (handleSearch planets oracles (asking ''known text'')) =
     [Call_verifyContent (hashOf CHR ''a''), Toast toast_success,
      Call_analyzeNewsContent ''known text'']"
  by (simp add: handleSearch_def handleSearch_text_def asking_def oracles_def known_hash
      verify_known Let_def)

lemma trace_unknown:
  "snd (handleSearch planets oracles (asking ''scientists find planet'')) =
     [Call_verifyContent (hashOf CHR ''e''), Call_searchVerifiedNews ''scientists find planet'',
      Call_analyzeNewsContent ''scientists find planet'', Toast toast_success]"
  by (simp add: handleSearch_def handleSearch_text_def asking_def oracles_def known_hash
      verify_unknown notFound_def planets_result Let_def)

lemma looked_up:
  "lookedUp oracles (asking ''known text'') = Some (Inr (hashOf CHR ''a''))"
  "lookedUp oracles (asking ''scientists find planet'') = Some (Inr (hashOf CHR ''e''))"
  by (simp_all add: lookedUp_def asking_def oracles_def known_hash)

theorem exact_hit_short_circuits_witness:
  "lookedUp oracles (asking ''known text'') = Some (Inr (hashOf CHR ''a'')) \<and>
   verification_result.exists (projr (verifyContent_client planets (hashOf CHR ''a''))) \<and>
   (\<forall>q. Call_searchVerifiedNews q \<notin> set (snd (handleSearch planets oracles (asking ''known text'')))) \<and>
   snd (handleSearch planets oracles (asking ''known text'')) =
     [Call_verifyContent (hashOf CHR ''a''), Toast toast_success,
      Call_analyzeNewsContent ''known text''] \<and>
   lookedUp oracles (asking ''scientists find planet'') = Some (Inr (hashOf CHR ''e'')) \<and>
   verifyContent_client planets (hashOf CHR ''e'') = Inr notFound \<and>
   snd (handleSearch planets oracles (asking ''scientists find planet'')) =
     [Call_verifyContent (hashOf CHR ''e''), Call_searchVerifiedNews ''scientists find planet'',
      Call_analyzeNewsContent ''scientists find planet'', Toast toast_success]"
proof -
  have "handleSearch planets oracles (asking ''known text'') =
      (fst (handleSearch planets oracles (asking ''known text'')),
       snd (handleSearch planets oracles (asking ''known text'')))"
    by simp
  from exact_hit_short_circuits[OF this] looked_up(1) verify_known
  have "\<forall>q. Call_searchVerifiedNews q \<notin> set (snd (handleSearch planets oracles (asking ''known text'')))"
    by simp
  with looked_up verify_known verify_unknown trace_known trace_unknown show ?thesis
    by simp
qed

end
